theory Spec2Isabelle
  imports Complex_Main
begin

section \<open>Python values and tables\<close>

text \<open>
  Exceptions that the modelled code can raise.  A fallible function returns
  \<open>error + 'a\<close>, with \<open>Inl\<close> the raised exception.
\<close>

datatype error =
    ZeroDivisionError
  | OverflowError
  | ValueError
  | KeyError string
  | IndexError string
  | OSError string
  | LibraryError string
  | ExportError string

text \<open>
  A Python \<open>float\<close>: a finite value (every finite double is a rational
  number), the two infinities, or not-a-number.
\<close>

datatype pyfloat = Finite rat | PosInf | NegInf | NaN

text \<open>
  The scalar values a DataFrame cell holds.  \<open>PObj s\<close> is any other object
  (a timestamp, for instance), carried with the text \<open>str\<close> gives for it.
\<close>

datatype pyval =
    PNone
  | PNaT
  | PFloat pyfloat
  | PInt int
  | PBool bool
  | PStr string
  | PObj string

datatype label = LStr string | LInt int

text \<open>
  A DataFrame: the column labels, the row labels, and the stored cell values,
  row by row.
\<close>

record table =
  columns :: "label list"
  index_labels :: "label list"
  rows :: "pyval list list"

definition wf_table :: "table \<Rightarrow> bool" where
  "wf_table df \<longleftrightarrow>
     length (rows df) = length (index_labels df) \<and>
     list_all (\<lambda>r. length r = length (columns df)) (rows df)"

text \<open>
  Python's slice \<open>xs[a:b]\<close> for integers \<open>a\<close> and \<open>b\<close>: a negative bound counts
  from the end, and every bound is clamped into \<open>0 .. len(xs)\<close>.
\<close>

definition py_clamp :: "int \<Rightarrow> nat \<Rightarrow> nat" where
  "py_clamp i n = (if i < 0 then nat (max (i + int n) 0) else min (nat i) n)"

definition py_slice :: "int \<Rightarrow> int \<Rightarrow> 'a list \<Rightarrow> 'a list" where
  "py_slice a b xs =
     (let n = length xs; lo = py_clamp a n; hi = py_clamp b n
      in take (hi - lo) (drop lo xs))"

text \<open>\<open>df.iloc[:, a:b].copy()\<close>: the columns of a positional range, all rows.\<close>

definition iloc_cols :: "table \<Rightarrow> int \<Rightarrow> int \<Rightarrow> table" where
  "iloc_cols df a b =
     df\<lparr>columns := py_slice a b (columns df),
        rows := map (py_slice a b) (rows df)\<rparr>"


section \<open>ColumnSlicer (column\_slicer.py)\<close>

record slicer =
  max_columns_per_page :: int

definition ColumnSlicer_init :: "int \<Rightarrow> slicer" where
  "ColumnSlicer_init m = \<lparr>max_columns_per_page = m\<rparr>"

type_synonym slice = "table \<times> int \<times> int"

text \<open>
  The \<open>while start_idx < total_columns\<close> loop of \<open>slice_dataframe\<close>.  The loop
  need not terminate, so it is a partial function: \<open>None\<close> is a run that never
  returns.
\<close>

partial_function (option) slice_loop ::
  "int \<Rightarrow> table \<Rightarrow> int \<Rightarrow> int \<Rightarrow> slice list \<Rightarrow> slice list option" where
  "slice_loop m df total_columns start_idx slices =
     (if start_idx < total_columns then
        (let end_idx = min (start_idx + m) total_columns;
             sliced_df = iloc_cols df start_idx end_idx
         in slice_loop m df total_columns end_idx
              (slices @ [(sliced_df, start_idx, end_idx - 1)]))
      else Some slices)"

declare slice_loop.simps [code]

definition slice_dataframe :: "slicer \<Rightarrow> table \<Rightarrow> slice list option" where
  "slice_dataframe self df =
     (let total_columns = int (length (columns df))
      in if total_columns = 0 then Some []
         else slice_loop (max_columns_per_page self) df total_columns 0 [])"

record slice_info =
  total_columns :: int
  info_max_columns_per_page :: int
  num_pages :: int
  last_page_columns :: int

text \<open>Python's \<open>a or b\<close> on integers: \<open>a\<close> unless it is zero.\<close>

definition py_or :: "int \<Rightarrow> int \<Rightarrow> int" where
  "py_or a b = (if a \<noteq> 0 then a else b)"

text \<open>
  \<open>get_slice_info\<close>.  Python's \<open>//\<close> and \<open>%\<close> round towards minus infinity, as
  \<open>div\<close> and \<open>mod\<close> on \<open>int\<close> do, and raise on a zero divisor.
\<close>

definition get_slice_info :: "slicer \<Rightarrow> table \<Rightarrow> error + slice_info" where
  "get_slice_info self df =
     (let total = int (length (columns df));
          m = max_columns_per_page self
      in if m = 0 then Inl ZeroDivisionError
         else Inr \<lparr>total_columns = total,
                   info_max_columns_per_page = m,
                   num_pages = (total + m - 1) div m,
                   last_page_columns = py_or (total mod m) m\<rparr>)"


subsection \<open>The closed form of the slices\<close>

text \<open>
  The number of pages of \<open>c\<close> columns at width \<open>m\<close>, the \<open>k\<close>-th slice (counted
  from 0) as the loop emits it, and the column positions a slice spans.
\<close>

definition npages :: "int \<Rightarrow> int \<Rightarrow> nat" where
  "npages m c = nat ((c + m - 1) div m)"

definition nth_page :: "int \<Rightarrow> table \<Rightarrow> int \<Rightarrow> nat \<Rightarrow> slice" where
  "nth_page m df c k =
     (iloc_cols df (int k * m) (min ((int k + 1) * m) c),
      int k * m, min ((int k + 1) * m) c - 1)"

definition slice_start :: "slice \<Rightarrow> int" where
  "slice_start s = fst (snd s)"

definition slice_end :: "slice \<Rightarrow> int" where
  "slice_end s = snd (snd s)"

definition span :: "slice \<Rightarrow> int list" where
  "span s = [slice_start s .. slice_end s]"


text \<open>A small table with three columns and two rows, for concrete runs.\<close>

definition demo_table :: table where
  "demo_table =
     \<lparr>columns = [LStr ''id'', LStr ''name'', LStr ''amount''],
      index_labels = [LInt 0, LInt 1],
      rows = [[PInt 1, PStr ''a|b'', PFloat (Finite (2469 / 2))],
              [PInt 2, PNone, PFloat (Finite 1234)]]\<rparr>"


section \<open>Text of numbers and strings\<close>

text \<open>\<open>str\<close> of a Python integer: its decimal digits, with a minus sign if negative.\<close>

definition digit_char :: "nat \<Rightarrow> char" where
  "digit_char d = ''0123456789'' ! d"

fun str_nat :: "nat \<Rightarrow> string" where
  "str_nat n = (if n < 10 then [digit_char n] else str_nat (n div 10) @ [digit_char (n mod 10)])"

declare str_nat.simps [simp del]

definition str_int :: "int \<Rightarrow> string" where
  "str_int i = (if i < 0 then CHR ''-'' # str_nat (nat (- i)) else str_nat (nat i))"

definition label_str :: "label \<Rightarrow> string" where
  "label_str h = (case h of LStr s \<Rightarrow> s | LInt i \<Rightarrow> str_int i)"

abbreviation newline :: string where
  "newline \<equiv> [CHR 0x0A]"

abbreviation backslash :: char where
  "backslash \<equiv> CHR 0x5C"

text \<open>\<open>sep.join(xs)\<close>.\<close>

fun py_join :: "string \<Rightarrow> string list \<Rightarrow> string" where
  "py_join sep [] = []"
| "py_join sep [x] = x"
| "py_join sep (x # y # ys) = x @ sep @ py_join sep (y # ys)"

text \<open>\<open>s.replace('|', '\\|')\<close>: a backslash before every pipe character.\<close>

definition escape_pipes :: "string \<Rightarrow> string" where
  "escape_pipes s = concat (map (\<lambda>c. if c = CHR ''|'' then [backslash, CHR ''|''] else [c]) s)"

text \<open>A list comprehension over a function that can raise: the first exception ends it.\<close>

fun map_result :: "('a \<Rightarrow> error + 'b) \<Rightarrow> 'a list \<Rightarrow> error + 'b list" where
  "map_result f [] = Inr []"
| "map_result f (x # xs) =
     (case f x of
        Inl e \<Rightarrow> Inl e
      | Inr y \<Rightarrow> (case map_result f xs of Inl e \<Rightarrow> Inl e | Inr ys \<Rightarrow> Inr (y # ys)))"


section \<open>The cell formatter (markdown\_exporter.py, html\_renderer.py)\<close>

text \<open>\<open>pd.isna\<close> on a scalar.\<close>

definition pd_isna :: "pyval \<Rightarrow> bool" where
  "pd_isna v = (case v of PNone \<Rightarrow> True | PNaT \<Rightarrow> True | PFloat NaN \<Rightarrow> True | _ \<Rightarrow> False)"

text \<open>
  \<open>int(value)\<close> on a float truncates towards zero, and raises on an infinity and
  on not-a-number.
\<close>

definition py_int :: "pyfloat \<Rightarrow> error + int" where
  "py_int f = (case f of
       Finite q \<Rightarrow> Inr (if q < 0 then - \<lfloor>- q\<rfloor> else \<lfloor>q\<rfloor>)
     | PosInf \<Rightarrow> Inl OverflowError
     | NegInf \<Rightarrow> Inl OverflowError
     | NaN \<Rightarrow> Inl ValueError)"

text \<open>\<open>value != i\<close> for a float and an integer: Python compares the exact values.\<close>

definition float_ne_int :: "pyfloat \<Rightarrow> int \<Rightarrow> bool" where
  "float_ne_int f i = (case f of Finite q \<Rightarrow> q \<noteq> of_int i | _ \<Rightarrow> True)"

text \<open>
  The format \<open>.2f\<close>: the exact value rounded to two decimals, ties to the even
  neighbour, with the sign of the value, in fixed notation.
\<close>

definition round_half_even :: "rat \<Rightarrow> int" where
  "round_half_even x =
     (let f = \<lfloor>x\<rfloor>; d = x - of_int f
      in if d < 1 / 2 then f
         else if 1 / 2 < d then f + 1
         else if even f then f else f + 1)"

definition format_2f :: "pyfloat \<Rightarrow> string" where
  "format_2f f = (case f of
       Finite q \<Rightarrow>
         (let n = nat (round_half_even (\<bar>q\<bar> * 100))
          in (if q < 0 then ''-'' else '''') @ str_nat (n div 100) @ ''.''
             @ [digit_char (n div 10 mod 10), digit_char (n mod 10)])
     | PosInf \<Rightarrow> ''inf''
     | NegInf \<Rightarrow> ''-inf''
     | NaN \<Rightarrow> ''nan'')"

text \<open>
  \<open>MarkdownExporter._format_cell\<close>.  The last branch is \<open>str(value)\<close> for each
  kind of value that is not a float.
\<close>

definition md_format_cell :: "pyval \<Rightarrow> error + string" where
  "md_format_cell v =
     (if pd_isna v then Inr ''''
      else case v of
        PFloat f \<Rightarrow>
          (case py_int f of
             Inl e \<Rightarrow> Inl e
           | Inr i \<Rightarrow> if float_ne_int f i then Inr (format_2f f) else Inr (str_int i))
      | PNone \<Rightarrow> Inr ''None''
      | PNaT \<Rightarrow> Inr ''NaT''
      | PInt i \<Rightarrow> Inr (str_int i)
      | PBool b \<Rightarrow> Inr (if b then ''True'' else ''False'')
      | PStr s \<Rightarrow> Inr s
      | PObj s \<Rightarrow> Inr s)"

text \<open>\<open>HTMLRenderer._format_cell\<close>.\<close>

definition html_format_cell :: "pyval \<Rightarrow> error + string" where
  "html_format_cell v =
     (if pd_isna v then Inr ''''
      else case v of
        PFloat f \<Rightarrow>
          (case py_int f of
             Inl e \<Rightarrow> Inl e
           | Inr i \<Rightarrow> if float_ne_int f i then Inr (format_2f f) else Inr (str_int i))
      | PNone \<Rightarrow> Inr ''None''
      | PNaT \<Rightarrow> Inr ''NaT''
      | PInt i \<Rightarrow> Inr (str_int i)
      | PBool b \<Rightarrow> Inr (if b then ''True'' else ''False'')
      | PStr s \<Rightarrow> Inr s
      | PObj s \<Rightarrow> Inr s)"

text \<open>A text in fixed notation with exactly two decimals: digits, a point, two digits.\<close>

definition is_digit :: "char \<Rightarrow> bool" where
  "is_digit c \<longleftrightarrow> c \<in> set ''0123456789''"

definition two_decimals :: "string \<Rightarrow> bool" where
  "two_decimals s \<longleftrightarrow>
     (let t = (if s \<noteq> [] \<and> hd s = CHR ''-'' then tl s else s);
          n = length t
      in 4 \<le> n \<and> list_all is_digit (take (n - 3) t) \<and> t ! (n - 3) = CHR ''.''
         \<and> is_digit (t ! (n - 2)) \<and> is_digit (t ! (n - 1)))"


section \<open>The values of a DataFrame, row by row\<close>

text \<open>
  \<open>df.values\<close> and \<open>df.iterrows()\<close> give the rows in one common dtype.  Each column
  has the dtype pandas infers from its values; when every column is numeric and
  one of them is a float column, the integers are converted to floats, and in
  every other case the cells come out as they are stored.
\<close>

datatype dtype = Int64 | Float64 | Object

definition column_dtype :: "pyval list \<Rightarrow> dtype" where
  "column_dtype vs =
     (if vs \<noteq> [] \<and> list_all (\<lambda>v. case v of PInt _ \<Rightarrow> True | _ \<Rightarrow> False) vs then Int64
      else if vs \<noteq> [] \<and> list_all (\<lambda>v. case v of PFloat _ \<Rightarrow> True | _ \<Rightarrow> False) vs then Float64
      else Object)"

fun bit_length :: "nat \<Rightarrow> nat" where
  "bit_length n = (if n = 0 then 0 else Suc (bit_length (n div 2)))"

declare bit_length.simps [simp del]

text \<open>
  An integer as a double: exact up to 53 bits, and beyond that rounded to 53
  significant bits, ties to even.
\<close>

definition int_to_float :: "int \<Rightarrow> rat" where
  "int_to_float i =
     (let n = nat \<bar>i\<bar>;
          u = 2 ^ (bit_length n - 53);
          q = n div u;
          r = n mod u;
          q' = (if 2 * r < u then q else if u < 2 * r then q + 1
                else if even q then q else q + 1)
      in of_int (sgn i * int (q' * u)))"

definition upcast_cell :: "pyval \<Rightarrow> pyval" where
  "upcast_cell v = (case v of PInt i \<Rightarrow> PFloat (Finite (int_to_float i)) | _ \<Rightarrow> v)"

definition df_values :: "table \<Rightarrow> pyval list list" where
  "df_values df =
     (let dtypes = map column_dtype (transpose (rows df))
      in if dtypes \<noteq> [] \<and> Object \<notin> set dtypes \<and> Float64 \<in> set dtypes
         then map (map upcast_cell) (rows df)
         else rows df)"

section \<open>Configuration and the page label\<close>

text \<open>
  A format string of \<open>str.format\<close>, already split into literal text and
  replacement fields \<open>{name}\<close>.  Fields with a conversion or a format
  specification are outside the model.
\<close>

datatype seg = Lit string | Field string

type_synonym template = "seg list"

text \<open>
  The configuration dictionary: every key is optional, and each reader supplies
  its own default.  The \<open>pdf\<close> and \<open>html\<close> sections are kept as they are, keys
  to values.
\<close>

record config =
  page_label_format :: "template option"
  cfg_max_columns_per_page :: "int option"
  output_dir :: "string option"
  combine_pdfs_flag :: "bool option"
  keep_individual_pages :: "bool option"
  pdf_section :: "(string \<times> string) list"
  html_section :: "(string \<times> string) list"

text \<open>
  A field is looked up among the keyword arguments.  An unknown name raises
  \<open>KeyError\<close>; an empty or numeric name is positional, and with no positional
  argument raises \<open>IndexError\<close>.
\<close>

definition lookup_field :: "string \<Rightarrow> (string \<times> int) list \<Rightarrow> error + int" where
  "lookup_field name kwargs =
     (if list_all is_digit name then Inl (IndexError name)
      else case map_of kwargs name of
        None \<Rightarrow> Inl (KeyError name)
      | Some v \<Rightarrow> Inr v)"

fun format_template :: "template \<Rightarrow> (string \<times> int) list \<Rightarrow> error + string" where
  "format_template [] kwargs = Inr []"
| "format_template (Lit s # rest) kwargs =
     (case format_template rest kwargs of Inl e \<Rightarrow> Inl e | Inr t \<Rightarrow> Inr (s @ t))"
| "format_template (Field name # rest) kwargs =
     (case lookup_field name kwargs of
        Inl e \<Rightarrow> Inl e
      | Inr v \<Rightarrow>
          (case format_template rest kwargs of Inl e \<Rightarrow> Inl e | Inr t \<Rightarrow> Inr (str_int v @ t)))"

text \<open>
  The default label, \<open>Page {page_num} - Columns {start_col}-{end_col}\<close>, where
  the first dash is an en dash (three bytes in UTF-8).
\<close>

definition default_page_label_format :: template where
  "default_page_label_format =
     [Lit ''Page '', Field ''page_num'',
      Lit ('' '' @ [CHR 0xE2, CHR 0x80, CHR 0x93] @ '' Columns ''),
      Field ''start_col'', Lit ''-'', Field ''end_col'']"

definition page_label :: "config \<Rightarrow> int \<Rightarrow> int \<Rightarrow> int \<Rightarrow> error + string" where
  "page_label cfg page_num start_col end_col =
     format_template
       (case page_label_format cfg of None \<Rightarrow> default_page_label_format | Some t \<Rightarrow> t)
       [(''page_num'', page_num), (''start_col'', start_col), (''end_col'', end_col)]"

definition default_config :: config where
  "default_config =
     \<lparr>page_label_format = None, cfg_max_columns_per_page = None, output_dir = None,
      combine_pdfs_flag = None, keep_individual_pages = None,
      pdf_section = [], html_section = []\<rparr>"


section \<open>MarkdownExporter (markdown\_exporter.py)\<close>

text \<open>
  The data rows of \<open>_manual_markdown_conversion\<close>: the loop over
  \<open>df.iterrows()\<close>, appending one line per row.
\<close>

fun md_data_rows :: "bool \<Rightarrow> (label \<times> pyval list) list \<Rightarrow> string \<Rightarrow> error + string" where
  "md_data_rows include_index [] markdown = Inr markdown"
| "md_data_rows include_index ((idx, row) # rest) markdown =
     (case map_result md_format_cell row of
        Inl e \<Rightarrow> Inl e
      | Inr cells \<Rightarrow>
          (let row_data = (if include_index then [label_str idx] else []) @ cells;
               row_data = map escape_pipes row_data
           in md_data_rows include_index rest
                (markdown @ ''| '' @ py_join '' | '' row_data @ '' |'' @ newline)))"

definition manual_markdown_conversion :: "table \<Rightarrow> bool \<Rightarrow> error + string" where
  "manual_markdown_conversion df include_index =
     (let headers = (if include_index then [LStr ''Index''] else []) @ columns df;
          headers = map (\<lambda>h. escape_pipes (label_str h)) headers;
          markdown = ''| '' @ py_join '' | '' headers @ '' |'' @ newline;
          markdown = markdown @ ''| '' @ py_join '' | '' (map (\<lambda>_. ''---'') headers)
                       @ '' |'' @ newline
      in md_data_rows include_index (zip (index_labels df) (df_values df)) markdown)"

text \<open>
  \<open>dataframe_to_markdown\<close>.  The method \<open>df.to_markdown\<close> belongs to pandas: it
  is a parameter, \<open>None\<close> when the DataFrame has no such method (the
  \<open>AttributeError\<close> that selects the fallback), and otherwise the function that
  gives its text or the exception it raises.
\<close>

definition dataframe_to_markdown ::
  "config \<Rightarrow> (table \<Rightarrow> bool \<Rightarrow> error + string) option \<Rightarrow> table \<Rightarrow>
     int \<Rightarrow> int \<Rightarrow> int \<Rightarrow> bool \<Rightarrow> error + string" where
  "dataframe_to_markdown cfg to_markdown df page_num start_col end_col include_index =
     (case page_label cfg page_num start_col end_col of
        Inl e \<Rightarrow> Inl e
      | Inr label \<Rightarrow>
          (let markdown = ''# '' @ label @ newline @ newline;
               markdown = markdown @ ''**Page:** '' @ str_int page_num @ '' | **Columns:** ''
                 @ str_int start_col @ '' to '' @ str_int end_col @ newline @ newline;
               markdown = markdown @ ''---'' @ newline @ newline
           in case (case to_markdown of
                      Some f \<Rightarrow> f df include_index
                    | None \<Rightarrow> manual_markdown_conversion df include_index) of
                Inl e \<Rightarrow> Inl e
              | Inr table_md \<Rightarrow>
                  Inr (markdown @ table_md @ newline @ newline @ ''---'' @ newline @ newline)))"


section \<open>Files and the combiners\<close>

text \<open>
  The file system as the combiners see it: a path that exists holds either a
  content that can be read, or something whose reading raises, with the text of
  the exception; and some paths cannot be written, again with the text of the
  exception.
\<close>

datatype 'a node = Content 'a | Unreadable string

record 'a filesys =
  files :: "string \<rightharpoonup> 'a node"
  unwritable :: "string \<rightharpoonup> string"

datatype level = DEBUG | INFO | WARNING | ERROR

type_synonym log = "(level \<times> string) list"

definition path_exists :: "'a filesys \<Rightarrow> string \<Rightarrow> bool" where
  "path_exists fs p \<longleftrightarrow> files fs p \<noteq> None"

definition read_file :: "'a filesys \<Rightarrow> string \<Rightarrow> string + 'a" where
  "read_file fs p = (case files fs p of
       Some (Content c) \<Rightarrow> Inr c
     | Some (Unreadable msg) \<Rightarrow> Inl msg
     | None \<Rightarrow> Inl ''No such file or directory'')"

definition write_file :: "'a filesys \<Rightarrow> string \<Rightarrow> 'a \<Rightarrow> string + 'a filesys" where
  "write_file fs p c = (case unwritable fs p of
       Some msg \<Rightarrow> Inl msg
     | None \<Rightarrow> Inr (fs\<lparr>files := (files fs)(p \<mapsto> Content c)\<rparr>))"




text \<open>
  \<open>combine_pdfs\<close>.  A PDF is its list of pages; the merger appends the pages of
  each file it is given, and an invalid file makes \<open>append\<close> raise.
\<close>

type_synonym pdf = "string list"

fun combine_pdf_loop :: "pdf filesys \<Rightarrow> string list \<Rightarrow> pdf \<Rightarrow> log \<Rightarrow> pdf \<times> log" where
  "combine_pdf_loop fs [] merger lg = (merger, lg)"
| "combine_pdf_loop fs (pdf_path # rest) merger lg =
     (if \<not> path_exists fs pdf_path then
        combine_pdf_loop fs rest merger (lg @ [(WARNING, ''PDF file not found: '' @ pdf_path)])
      else case read_file fs pdf_path of
        Inr pages \<Rightarrow>
          combine_pdf_loop fs rest (merger @ pages)
            (lg @ [(DEBUG, ''Added to merger: '' @ pdf_path)])
      | Inl msg \<Rightarrow>
          combine_pdf_loop fs rest merger
            (lg @ [(ERROR, ''Error adding PDF '' @ pdf_path @ '': '' @ msg)]))"

definition combine_pdfs ::
  "pdf filesys \<Rightarrow> string list \<Rightarrow> string \<Rightarrow> bool \<times> pdf filesys \<times> log" where
  "combine_pdfs fs pdf_paths output_path =
     (let lg = [(INFO, ''Combining '' @ str_int (int (length pdf_paths))
                   @ '' PDFs into '' @ output_path)];
          (merger, lg) = combine_pdf_loop fs pdf_paths [] lg
      in case write_file fs output_path merger of
           Inr fs' \<Rightarrow>
             (True, fs', lg @ [(INFO, ''Successfully combined PDFs into: '' @ output_path)])
         | Inl msg \<Rightarrow> (False, fs, lg @ [(ERROR, ''Error combining PDFs: '' @ msg)]))"




subsection \<open>The layout of a rendered page\<close>

text \<open>
  The layout the Markdown rendering is measured against: a line of a pipe table,
  and the whole page made of the heading, the metadata line, a rule, the header
  line, the separator line, one line per row, and the closing rule.
\<close>

definition md_line :: "string list \<Rightarrow> string" where
  "md_line cells = ''| '' @ py_join '' | '' cells @ '' |'' @ newline"

definition md_heading :: "string \<Rightarrow> int \<Rightarrow> int \<Rightarrow> int \<Rightarrow> string" where
  "md_heading label page_num start_col end_col =
     ''# '' @ label @ newline @ newline
     @ ''**Page:** '' @ str_int page_num @ '' | **Columns:** '' @ str_int start_col
     @ '' to '' @ str_int end_col @ newline @ newline
     @ ''---'' @ newline @ newline"

definition md_trailer :: string where
  "md_trailer = newline @ newline @ ''---'' @ newline @ newline"

definition md_page ::
  "string \<Rightarrow> int \<Rightarrow> int \<Rightarrow> int \<Rightarrow> string list \<Rightarrow> string list list \<Rightarrow> string" where
  "md_page label page_num start_col end_col headers cells =
     md_heading label page_num start_col end_col
     @ md_line (map escape_pipes headers)
     @ md_line (map (\<lambda>_. ''---'') headers)
     @ concat (map (\<lambda>row. md_line (map escape_pipes row)) cells)
     @ md_trailer"

text \<open>Every pipe character of a text is preceded by a backslash.\<close>

definition pipes_escaped :: "string \<Rightarrow> bool" where
  "pipes_escaped t \<longleftrightarrow>
     (\<forall>i < length t. t ! i = CHR ''|'' \<longrightarrow> 0 < i \<and> t ! (i - 1) = backslash)"

text \<open>
  A table with one column \<open>a|b\<close> and one cell \<open>x|y\<close>, and the text pandas'
  \<open>to_markdown\<close> prints for it (the pipe format of tabulate, which escapes
  nothing), as a stand-in for the built-in on this table.
\<close>

definition pipe_table :: table where
  "pipe_table = \<lparr>columns = [LStr ''a|b''], index_labels = [LInt 0], rows = [[PStr ''x|y'']]\<rparr>"

definition sample_to_markdown :: "table \<Rightarrow> bool \<Rightarrow> error + string" where
  "sample_to_markdown df include_index =
     Inr (''| a|b   |'' @ newline @ ''|:------|'' @ newline @ ''| x|y   |'')"


section \<open>HTMLRenderer (html\_renderer.py)\<close>

text \<open>
  The arguments \<open>render_table\<close> hands to the template.  The template engine is
  Jinja2: loading \<open>table.html\<close> gives a template or raises, and rendering a
  template gives the HTML or raises.
\<close>

record render_args =
  arg_page_label :: string
  arg_headers :: "label list"
  arg_rows :: "string list list"
  arg_page_num :: int
  arg_start_col :: int
  arg_end_col :: int
  arg_font_size :: string
  arg_font_family :: string
  arg_table_border :: string
  arg_header_bg_color :: string
  arg_header_text_color :: string
  arg_cell_padding :: string
  arg_stripe_rows :: string
  arg_stripe_color :: string

type_synonym jinja_template = "render_args \<Rightarrow> error + string"

definition get_setting :: "(string \<times> string) list \<Rightarrow> string \<Rightarrow> string \<Rightarrow> string" where
  "get_setting section key dflt = (case map_of section key of None \<Rightarrow> dflt | Some v \<Rightarrow> v)"

definition render_table ::
  "config \<Rightarrow> error + jinja_template \<Rightarrow> table \<Rightarrow> int \<Rightarrow> int \<Rightarrow> int \<Rightarrow> string option
     \<Rightarrow> error + string" where
  "render_table cfg get_template df page_num start_col end_col label_arg =
     (case get_template of
        Inl e \<Rightarrow> Inl e
      | Inr template \<Rightarrow>
          (case (case label_arg of
                   Some l \<Rightarrow> Inr l
                 | None \<Rightarrow> page_label cfg page_num start_col end_col) of
             Inl e \<Rightarrow> Inl e
           | Inr label \<Rightarrow>
               (case map_result (map_result html_format_cell) (df_values df) of
                  Inl e \<Rightarrow> Inl e
                | Inr formatted \<Rightarrow>
                    template
                      \<lparr>arg_page_label = label,
                       arg_headers = columns df,
                       arg_rows = formatted,
                       arg_page_num = page_num,
                       arg_start_col = start_col,
                       arg_end_col = end_col,
                       arg_font_size = get_setting (pdf_section cfg) ''font_size'' ''10pt'',
                       arg_font_family =
                         get_setting (pdf_section cfg) ''font_family'' ''Arial, sans-serif'',
                       arg_table_border =
                         get_setting (html_section cfg) ''table_border'' ''1px solid #333'',
                       arg_header_bg_color =
                         get_setting (html_section cfg) ''header_bg_color'' ''#4CAF50'',
                       arg_header_text_color =
                         get_setting (html_section cfg) ''header_text_color'' ''#ffffff'',
                       arg_cell_padding = get_setting (html_section cfg) ''cell_padding'' ''8px'',
                       arg_stripe_rows = get_setting (html_section cfg) ''stripe_rows'' ''True'',
                       arg_stripe_color =
                         get_setting (html_section cfg) ''stripe_color'' ''#f2f2f2''\<rparr>)))"


section \<open>PDFExporter (pdf\_exporter.py)\<close>

text \<open>
  WeasyPrint turns HTML into the pages of a PDF, or raises: once with the page
  style sheet, which \<open>_generate_page_css\<close> builds from the \<open>pdf\<close> section of the
  configuration, and once without any, for the fallback.  The text of its
  exception is kept.
\<close>

record weasyprint =
  write_pdf_styled :: "string \<Rightarrow> (string \<times> string) list \<Rightarrow> string + pdf"
  write_pdf_plain :: "string \<Rightarrow> string + pdf"

definition html_to_pdf ::
  "weasyprint \<Rightarrow> config \<Rightarrow> pdf filesys \<Rightarrow> string \<Rightarrow> string \<Rightarrow> bool \<times> pdf filesys" where
  "html_to_pdf wp cfg fs html_content output_path =
     (case (case write_pdf_styled wp html_content (pdf_section cfg) of
              Inl msg \<Rightarrow> Inl msg
            | Inr pages \<Rightarrow> write_file fs output_path pages) of
        Inr fs' \<Rightarrow> (True, fs')
      | Inl msg \<Rightarrow>
          (case (case write_pdf_plain wp html_content of
                   Inl msg2 \<Rightarrow> Inl msg2
                 | Inr pages \<Rightarrow> write_file fs output_path pages) of
             Inr fs' \<Rightarrow> (True, fs')
           | Inl msg2 \<Rightarrow> (False, fs)))"

text \<open>\<open>output_dir / name\<close> as a string, for a directory written without a final slash.\<close>

definition path_join :: "string \<Rightarrow> string \<Rightarrow> string" where
  "path_join dir name = dir @ ''/'' @ name"

definition export_dataframe_slice ::
  "weasyprint \<Rightarrow> config \<Rightarrow> string \<Rightarrow> pdf filesys \<Rightarrow> string \<Rightarrow> int
     \<Rightarrow> (error + string) \<times> pdf filesys" where
  "export_dataframe_slice wp cfg out_dir fs html_content page_num =
     (let output_path = path_join out_dir (''page_'' @ str_int page_num @ ''.pdf'');
          (success, fs') = html_to_pdf wp cfg fs html_content output_path
      in if success then (Inr output_path, fs')
         else (Inl (ExportError (''Failed to create PDF for page '' @ str_int page_num)), fs'))"


section \<open>ExcelToPDFPipeline (pipeline.py)\<close>

record pipeline =
  p_config :: config
  p_slicer :: slicer
  p_output_dir :: string

text \<open>
  \<open>__init__\<close>, from the configuration once loaded: the slicer gets the configured
  width, or 12, as it is.
\<close>

definition pipeline_init :: "config \<Rightarrow> pipeline" where
  "pipeline_init cfg =
     \<lparr>p_config = cfg,
      p_slicer = ColumnSlicer_init
         (case cfg_max_columns_per_page cfg of None \<Rightarrow> 12 | Some m \<Rightarrow> m),
      p_output_dir = (case output_dir cfg of None \<Rightarrow> ''output'' | Some d \<Rightarrow> d)\<rparr>"

text \<open>What the pipeline calls outside the repository.\<close>

record env =
  read_excel :: "string \<Rightarrow> string option \<Rightarrow> error + table"
  get_template :: "error + jinja_template"
  weasy :: weasyprint

text \<open>
  The result dictionary of \<open>process\<close>: a completed run, or a failed one with the
  exception whose text is the reason.
\<close>

record completed =
  res_input_file :: string
  total_pages :: int
  individual_pdfs :: "string list"
  combined_pdf :: "string option"
  res_slice_info :: slice_info

datatype run_result = Success completed | Failure error string

text \<open>
  Step 4 of \<open>process\<close>: the loop over the numbered slices.  An exception while
  rendering or exporting a slice is caught, and the loop goes on.
\<close>

fun process_slices ::
  "env \<Rightarrow> pipeline \<Rightarrow> (int \<times> slice) list \<Rightarrow> pdf filesys \<Rightarrow> string list
     \<Rightarrow> string list \<times> pdf filesys" where
  "process_slices ev self [] fs pdf_paths = (pdf_paths, fs)"
| "process_slices ev self ((idx, slice_df, start_col, end_col) # rest) fs pdf_paths =
     (case render_table (p_config self) (get_template ev) slice_df idx start_col end_col None of
        Inl e \<Rightarrow> process_slices ev self rest fs pdf_paths
      | Inr html_content \<Rightarrow>
          (case export_dataframe_slice (weasy ev) (p_config self) (p_output_dir self)
                  fs html_content idx of
             (Inl e, fs') \<Rightarrow> process_slices ev self rest fs' pdf_paths
           | (Inr pdf_path, fs') \<Rightarrow> process_slices ev self rest fs' (pdf_paths @ [pdf_path])))"

definition unlink :: "string \<Rightarrow> 'a filesys \<Rightarrow> 'a filesys" where
  "unlink p fs = fs\<lparr>files := (files fs)(p := None)\<rparr>"

definition process ::
  "env \<Rightarrow> pipeline \<Rightarrow> pdf filesys \<Rightarrow> string \<Rightarrow> string option
     \<Rightarrow> (run_result \<times> pdf filesys) option" where
  "process ev self fs input_file sheet_name =
     (case read_excel ev input_file sheet_name of
        Inl e \<Rightarrow> Some (Failure e input_file, fs)
      | Inr df \<Rightarrow>
          (case get_slice_info (p_slicer self) df of
             Inl e \<Rightarrow> Some (Failure e input_file, fs)
           | Inr info \<Rightarrow>
               (case slice_dataframe (p_slicer self) df of
                  None \<Rightarrow> None
                | Some slices \<Rightarrow>
                    (let (pdf_paths, fs1) =
                           process_slices ev self (zip [1 .. int (length slices)] slices) fs [];
                         (combined_path, fs2) =
                           (if (case combine_pdfs_flag (p_config self) of
                                  None \<Rightarrow> True | Some b \<Rightarrow> b) \<and> 0 < length pdf_paths
                            then
                              (let combined = path_join (p_output_dir self) ''combined_output.pdf'';
                                   (ok, fs', lg) = combine_pdfs fs1 pdf_paths combined
                               in if ok then (Some combined, fs') else (None, fs'))
                            else (None, fs1));
                         fs3 =
                           (if \<not> (case keep_individual_pages (p_config self) of
                                     None \<Rightarrow> True | Some b \<Rightarrow> b)
                            then fold unlink pdf_paths fs2 else fs2)
                     in Some (Success
                          \<lparr>res_input_file = input_file,
                           total_pages = int (length pdf_paths),
                           individual_pdfs = pdf_paths,
                           combined_pdf = combined_path,
                           res_slice_info = info\<rparr>, fs3)))))"

text \<open>
  The path of the page a numbered slice gives when it is processed alone, or
  \<open>None\<close> when rendering or exporting it raises.
\<close>

definition page_path ::
  "env \<Rightarrow> pipeline \<Rightarrow> pdf filesys \<Rightarrow> int \<times> slice \<Rightarrow> string option" where
  "page_path ev self fs item =
     (case item of (idx, slice_df, start_col, end_col) \<Rightarrow>
        (case render_table (p_config self) (get_template ev) slice_df idx start_col end_col None of
           Inl e \<Rightarrow> None
         | Inr html_content \<Rightarrow>
             (case fst (export_dataframe_slice (weasy ev) (p_config self) (p_output_dir self)
                          fs html_content idx) of
                Inl e \<Rightarrow> None
              | Inr pdf_path \<Rightarrow> Some pdf_path)))"

text \<open>
  A run in which the template fails on page 1 only: the workbook \<open>data.xlsx\<close>
  holds the small table, the width is 2, and WeasyPrint gives one page per
  document.
\<close>

definition demo_env :: env where
  "demo_env =
     \<lparr>read_excel = (\<lambda>file sheet.
         if file = ''data.xlsx'' then Inr demo_table
         else Inl (OSError ''No such file or directory'')),
      get_template = Inr (\<lambda>args.
         if arg_page_num args = 1 then Inl (LibraryError ''undefined variable'')
         else Inr ''<html></html>''),
      weasy = \<lparr>write_pdf_styled = (\<lambda>html css. Inr [html]),
                write_pdf_plain = (\<lambda>html. Inr [html])\<rparr>\<rparr>"

definition demo_pipeline :: pipeline where
  "demo_pipeline = pipeline_init (default_config\<lparr>cfg_max_columns_per_page := Some 2\<rparr>)"

definition no_files :: "pdf filesys" where
  "no_files = \<lparr>files = Map.empty, unwritable = Map.empty\<rparr>"

section \<open>Properties of the slicer\<close>

lemma less_div_iff:
  fixes k m c :: int
  assumes "1 \<le> m"
  shows "k * m < c \<longleftrightarrow> k < (c + m - 1) div m"
proof
  assume "k * m < c"
  then have "(k + 1) * m \<le> c + m - 1" by (simp add: algebra_simps)
  then have "((k + 1) * m) div m \<le> (c + m - 1) div m"
    using assms by (intro zdiv_mono1) auto
  then show "k < (c + m - 1) div m" using assms by simp
next
  assume "k < (c + m - 1) div m"
  then have "k + 1 \<le> (c + m - 1) div m" by simp
  then have "(k + 1) * m \<le> ((c + m - 1) div m) * m"
    using assms by (intro mult_right_mono) auto
  also have "\<dots> \<le> c + m - 1"
  proof -
    have "((c + m - 1) div m) * m + (c + m - 1) mod m = c + m - 1" by simp
    moreover have "0 \<le> (c + m - 1) mod m" using assms by simp
    ultimately show ?thesis by linarith
  qed
  finally show "k * m < c" by (simp add: algebra_simps)
qed

lemma npages_iff: "1 \<le> m \<Longrightarrow> int k * m < c \<longleftrightarrow> k < npages m c"
  unfolding npages_def using less_div_iff [of m "int k" c] by auto

lemma slice_loop_done:
  "\<not> start < c \<Longrightarrow> slice_loop m df c start acc = Some acc"
  by (subst slice_loop.simps) simp

lemma slice_loop_step:
  "start < c \<Longrightarrow> slice_loop m df c start acc =
     slice_loop m df c (min (start + m) c)
       (acc @ [(iloc_cols df start (min (start + m) c), start, min (start + m) c - 1)])"
  by (subst slice_loop.simps) (simp add: Let_def)

lemma slice_loop_closed:
  assumes "1 \<le> m"
  shows "slice_loop m df c (int k * m) acc =
           Some (acc @ map (nth_page m df c) [k ..< npages m c])"
proof (induction "npages m c - k" arbitrary: k acc)
  case 0
  then have "\<not> k < npages m c" by simp
  then have "\<not> int k * m < c" using npages_iff [OF assms] by simp
  then show ?case using 0 by (simp add: slice_loop_done)
next
  case (Suc n)
  then have lt: "k < npages m c" by simp
  then have klt: "int k * m < c" using npages_iff [OF assms] by simp
  have e: "int k * m + m = (int k + 1) * m" by (simp add: algebra_simps)
  have step: "slice_loop m df c (int k * m) acc =
      slice_loop m df c (min ((int k + 1) * m) c) (acc @ [nth_page m df c k])"
    using slice_loop_step [OF klt, of m df acc] by (simp add: nth_page_def e)
  show ?case
  proof (cases "int (Suc k) * m < c")
    case True
    then have m: "min ((int k + 1) * m) c = int (Suc k) * m" by (simp add: algebra_simps)
    have "n = npages m c - Suc k" using Suc.hyps(2) by simp
    from Suc.hyps(1) [OF this]
    have "slice_loop m df c (int (Suc k) * m) (acc @ [nth_page m df c k]) =
        Some ((acc @ [nth_page m df c k]) @ map (nth_page m df c) [Suc k ..< npages m c])" .
    then show ?thesis using step m lt by (simp add: upt_conv_Cons)
  next
    case False
    then have "\<not> Suc k < npages m c" using npages_iff [OF assms, of "Suc k" c] by blast
    then have np: "npages m c = Suc k" using lt by simp
    have m: "min ((int k + 1) * m) c = c" using False by (simp add: algebra_simps)
    show ?thesis using step by (simp add: m np slice_loop_done)
  qed
qed

lemma npages_zero: "1 \<le> m \<Longrightarrow> npages m 0 = 0"
  unfolding npages_def by (simp add: div_pos_pos_trivial)

lemma slice_dataframe_closed:
  assumes "1 \<le> max_columns_per_page self"
  shows "slice_dataframe self df =
     Some (map (nth_page (max_columns_per_page self) df (int (length (columns df))))
            [0 ..< npages (max_columns_per_page self) (int (length (columns df)))])"
  using slice_loop_closed [OF assms, of df "int (length (columns df))" 0 "[]"] npages_zero [OF assms]
  by (simp add: slice_dataframe_def Let_def)

lemma slice_loop_total:
  assumes "1 \<le> m"
  shows "\<exists>r. slice_loop m df c start acc = Some r"
proof (induction "nat (c - start)" arbitrary: start acc rule: less_induct)
  case less
  show ?case
  proof (cases "start < c")
    case False
    then show ?thesis by (simp add: slice_loop_done)
  next
    case True
    then have "nat (c - min (start + m) c) < nat (c - start)" using assms by auto
    from less [OF this] show ?thesis by (simp add: slice_loop_step [OF True])
  qed
qed

lemma slice_loop_diverges_aux:
  assumes "slice_loop m df c start acc = Some y"
  shows "m \<le> 0 \<longrightarrow> c \<le> start"
proof (rule slice_loop.raw_induct
        [where P = "\<lambda>m df c start acc y. m \<le> 0 \<longrightarrow> c \<le> start", OF _ assms], goal_cases)
  case (1 f m df c s sl y)
  show ?case
  proof (cases "s < c")
    case False
    then show ?thesis by simp
  next
    case True
    with 1(2) have "f m df c (min (s + m) c)
        (sl @ [(iloc_cols df s (min (s + m) c), s, min (s + m) c - 1)]) = Some y"
      by (simp add: Let_def)
    from 1(1) [OF this] True show ?thesis by auto
  qed
qed

lemma slice_loop_diverges:
  "m \<le> 0 \<Longrightarrow> start < c \<Longrightarrow> slice_loop m df c start acc = None"
  using slice_loop_diverges_aux [of m df c start acc] by (cases "slice_loop m df c start acc") auto

lemma span_nth_page: "span (nth_page m df c k) = [int k * m .. min ((int k + 1) * m) c - 1]"
  by (simp add: span_def slice_start_def slice_end_def nth_page_def)

lemma concat_spans:
  assumes "1 \<le> m"
  shows "j \<le> npages m c \<Longrightarrow>
     concat (map (\<lambda>k. span (nth_page m df c k)) [0 ..< j]) = [0 .. min (int j * m) c - 1]"
proof (induction j)
  case 0
  then show ?case by simp
next
  case (Suc j)
  then have lt: "int j * m < c" using npages_iff [OF assms] by simp
  have a: "min (int j * m) c = int j * m" using lt by simp
  have b: "int j * m \<le> min (int (Suc j) * m) c" using lt assms by (simp add: algebra_simps)
  have "[0 .. min (int (Suc j) * m) c - 1] =
        [0 .. int j * m - 1] @ [int j * m .. min (int (Suc j) * m) c - 1]"
  proof (rule upto_split1)
    show "0 \<le> int j * m" using assms by simp
    show "int j * m \<le> min (int (Suc j) * m) c - 1" using lt assms by (simp add: algebra_simps)
  qed
  moreover have "concat (map (\<lambda>k. span (nth_page m df c k)) [0 ..< j]) = [0 .. int j * m - 1]"
    using Suc a by simp
  moreover have "int (Suc j) * m = (int j + 1) * m" by simp
  ultimately show ?case by (simp only: upt_Suc_append [OF le0] map_append concat_append
        span_nth_page list.map concat.simps append_Nil2)
qed

lemma npages_cover:
  assumes "1 \<le> m" "0 \<le> c"
  shows "min (int (npages m c) * m) c = c"
proof -
  have "\<not> int (npages m c) * m < c" using npages_iff [OF assms(1), of "npages m c" c] by simp
  then show ?thesis by simp
qed

lemma py_slice_in_range:
  "0 \<le> a \<Longrightarrow> a \<le> b \<Longrightarrow> b \<le> int (length xs) \<Longrightarrow>
     py_slice a b xs = take (nat b - nat a) (drop (nat a) xs)"
proof -
  assume a: "0 \<le> a" and ab: "a \<le> b" and b: "b \<le> int (length xs)"
  have "nat b \<le> length xs" using b by linarith
  moreover have "nat a \<le> length xs" using ab b by linarith
  ultimately show ?thesis using a ab
    by (simp add: py_slice_def py_clamp_def Let_def min_def)
qed

lemma concat_py_slices:
  assumes "1 \<le> m" "c = int (length xs)"
  shows "j \<le> npages m c \<Longrightarrow>
     concat (map (\<lambda>k. py_slice (int k * m) (min ((int k + 1) * m) c) xs) [0 ..< j])
       = take (nat (min (int j * m) c)) xs"
proof (induction j)
  case 0
  then show ?case by simp
next
  case (Suc j)
  then have lt: "int j * m < c" using npages_iff [OF assms(1)] by simp
  have nn: "0 \<le> int j * m" using assms by simp
  have le: "int j * m \<le> min ((int j + 1) * m) c" using lt assms by (simp add: algebra_simps)
  have ps: "py_slice (int j * m) (min ((int j + 1) * m) c) xs =
      take (nat (min ((int j + 1) * m) c) - nat (int j * m)) (drop (nat (int j * m)) xs)"
    using assms(2) by (intro py_slice_in_range [OF nn le]) simp
  have ih: "concat (map (\<lambda>k. py_slice (int k * m) (min ((int k + 1) * m) c) xs) [0 ..< j])
       = take (nat (int j * m)) xs" using Suc lt by simp
  have "take (nat (min ((int j + 1) * m) c)) xs =
        take (nat (int j * m)) xs @
        take (nat (min ((int j + 1) * m) c) - nat (int j * m)) (drop (nat (int j * m)) xs)"
  proof -
    have "nat (int j * m) \<le> nat (min ((int j + 1) * m) c)" using le by linarith
    then have "nat (min ((int j + 1) * m) c) =
        nat (int j * m) + (nat (min ((int j + 1) * m) c) - nat (int j * m))" by simp
    then show ?thesis using take_add [of "nat (int j * m)"
        "nat (min ((int j + 1) * m) c) - nat (int j * m)" xs] by simp
  qed
  moreover have "int (Suc j) * m = (int j + 1) * m" by simp
  ultimately show ?case using ih ps
    by (simp only: upt_Suc_append [OF le0] map_append concat_append
        list.map concat.simps append_Nil2)
qed


lemma pages_spans:
  assumes "1 \<le> m" "0 \<le> c"
  shows "concat (map span (map (nth_page m df c) [0 ..< npages m c])) = [0 .. c - 1]"
  using concat_spans [OF assms(1) le_refl, where c = c and df = df] npages_cover [OF assms]
  by (simp add: comp_def)

lemma pages_ordered:
  assumes "1 \<le> m" "i < j"
  shows "slice_end (nth_page m df c i) < slice_start (nth_page m df c j)"
proof -
  have "int i + 1 \<le> int j" using assms(2) by simp
  then have "(int i + 1) * m \<le> int j * m" using assms(1) by (intro mult_right_mono) auto
  then show ?thesis by (simp add: slice_end_def slice_start_def nth_page_def)
qed

lemma pages_contiguous:
  assumes "1 \<le> m" "Suc i < npages m c"
  shows "slice_start (nth_page m df c (Suc i)) = slice_end (nth_page m df c i) + 1"
proof -
  have "int (Suc i) * m < c" using assms npages_iff by blast
  then show ?thesis by (simp add: slice_end_def slice_start_def nth_page_def algebra_simps)
qed

lemma pages_nonempty:
  assumes "1 \<le> m" "k < npages m c"
  shows "slice_start (nth_page m df c k) \<le> slice_end (nth_page m df c k)"
proof -
  have "int k * m < c" using assms npages_iff by blast
  then show ?thesis using assms(1)
    by (simp add: slice_end_def slice_start_def nth_page_def algebra_simps)
qed

lemma pages_rows:
  "index_labels (fst (nth_page m df c k)) = index_labels df \<and>
   length (rows (fst (nth_page m df c k))) = length (rows df)"
  by (simp add: nth_page_def iloc_cols_def)

lemma pages_columns:
  assumes "1 \<le> m"
  shows "concat (map (columns \<circ> fst)
           (map (nth_page m df (int (length (columns df))))
             [0 ..< npages m (int (length (columns df)))])) = columns df"
  using concat_py_slices [OF assms refl le_refl, where xs = "columns df"]
    npages_cover [OF assms, where c = "int (length (columns df))"]
  by (simp add: comp_def nth_page_def iloc_cols_def)

lemma pages_row_cells:
  assumes "1 \<le> m" "wf_table df" "r < length (rows df)"
  shows "concat (map (\<lambda>s. rows (fst s) ! r)
           (map (nth_page m df (int (length (columns df))))
             [0 ..< npages m (int (length (columns df)))])) = rows df ! r"
proof -
  have len: "int (length (columns df)) = int (length (rows df ! r))"
    using assms(2,3) by (simp add: wf_table_def list_all_length)
  show ?thesis
    using concat_py_slices [OF assms(1) len le_refl]
      npages_cover [OF assms(1), where c = "int (length (columns df))"] assms(3) len
    by (simp add: comp_def nth_page_def iloc_cols_def)
qed

text \<open>
  Claim C1.  For a page width of at least 1, \<open>slice_dataframe\<close> returns slices
  whose column spans, concatenated in emission order, are exactly the positions
  \<open>0 .. C - 1\<close>; the spans ascend, are pairwise disjoint, each starts right after
  the one before and none is empty; every slice keeps the row labels and the row
  count of the table; and the slices' columns and the cells of every row,
  concatenated, are those of the table.
\<close>

theorem slices_partition_columns:
  assumes "1 \<le> max_columns_per_page self" and "wf_table df"
  shows "\<exists>sl. slice_dataframe self df = Some sl
     \<and> concat (map span sl) = [0 .. int (length (columns df)) - 1]
     \<and> (\<forall>i j. i < j \<and> j < length sl \<longrightarrow>
           slice_end (sl ! i) < slice_start (sl ! j)
           \<and> set (span (sl ! i)) \<inter> set (span (sl ! j)) = {})
     \<and> (\<forall>i. Suc i < length sl \<longrightarrow> slice_start (sl ! Suc i) = slice_end (sl ! i) + 1)
     \<and> (\<forall>i < length sl. slice_start (sl ! i) \<le> slice_end (sl ! i)
           \<and> index_labels (fst (sl ! i)) = index_labels df
           \<and> length (rows (fst (sl ! i))) = length (rows df))
     \<and> concat (map (columns \<circ> fst) sl) = columns df
     \<and> (\<forall>r < length (rows df). concat (map (\<lambda>s. rows (fst s) ! r) sl) = rows df ! r)"
proof -
  define m where "m = max_columns_per_page self"
  define c where "c = int (length (columns df))"
  define sl where "sl = map (nth_page m df c) [0 ..< npages m c]"
  have m: "1 \<le> m" using assms(1) by (simp add: m_def)
  have len: "length sl = npages m c" by (simp add: sl_def)
  have nth: "\<And>i. i < npages m c \<Longrightarrow> sl ! i = nth_page m df c i" by (simp add: sl_def)
  have 1: "slice_dataframe self df = Some sl"
    using slice_dataframe_closed [OF assms(1), where df = df] by (simp add: sl_def m_def c_def)
  have 2: "concat (map span sl) = [0 .. int (length (columns df)) - 1]"
    using pages_spans [OF m, where c = c and df = df] by (simp add: sl_def c_def)
  have 3: "\<forall>i j. i < j \<and> j < length sl \<longrightarrow>
           slice_end (sl ! i) < slice_start (sl ! j)
           \<and> set (span (sl ! i)) \<inter> set (span (sl ! j)) = {}"
  proof (intro allI impI)
    fix i j assume ij: "i < j \<and> j < length sl"
    then have "slice_end (sl ! i) < slice_start (sl ! j)"
      using pages_ordered [OF m, where df = df and c = c] nth len by simp
    then show "slice_end (sl ! i) < slice_start (sl ! j)
           \<and> set (span (sl ! i)) \<inter> set (span (sl ! j)) = {}"
      by (auto simp: span_def)
  qed
  have 4: "\<forall>i. Suc i < length sl \<longrightarrow> slice_start (sl ! Suc i) = slice_end (sl ! i) + 1"
    using pages_contiguous [OF m] nth len by simp
  have 5: "\<forall>i < length sl. slice_start (sl ! i) \<le> slice_end (sl ! i)
           \<and> index_labels (fst (sl ! i)) = index_labels df
           \<and> length (rows (fst (sl ! i))) = length (rows df)"
    using pages_nonempty [OF m] pages_rows nth len by simp
  have 6: "concat (map (columns \<circ> fst) sl) = columns df"
    using pages_columns [OF m, where df = df] by (simp add: sl_def c_def)
  have 7: "\<forall>r < length (rows df). concat (map (\<lambda>s. rows (fst s) ! r) sl) = rows df ! r"
    using pages_row_cells [OF m assms(2)] by (simp add: sl_def c_def)
  from 1 2 3 4 5 6 7 show ?thesis by blast
qed

theorem slices_partition_columns_witness:
  "1 \<le> max_columns_per_page (ColumnSlicer_init 2) \<and> wf_table demo_table \<and>
   (\<exists>sl. slice_dataframe (ColumnSlicer_init 2) demo_table = Some sl
     \<and> concat (map span sl) = [0 .. int (length (columns demo_table)) - 1]
     \<and> concat (map (columns \<circ> fst) sl) = columns demo_table
     \<and> (\<forall>i < length sl. length (rows (fst (sl ! i))) = length (rows demo_table)))"
proof -
  have h1: "1 \<le> max_columns_per_page (ColumnSlicer_init 2)"
    by (simp add: ColumnSlicer_init_def)
  have h2: "wf_table demo_table" by (simp add: wf_table_def demo_table_def)
  from slices_partition_columns [OF h1 h2] h1 h2 show ?thesis by blast
qed

lemma npages_ceiling:
  assumes "1 \<le> m" "0 \<le> c"
  shows "int (npages m c) = \<lceil>real_of_int c / real_of_int m\<rceil>"
proof -
  define q where "q = (c + m - 1) div m"
  have q0: "0 \<le> q" using assms by (simp add: q_def pos_imp_zdiv_nonneg_iff)
  have lo: "(q - 1) * m < c" using less_div_iff [OF assms(1), of "q - 1" c] by (simp add: q_def)
  have hi: "c \<le> q * m" using less_div_iff [OF assms(1), of q c] by (simp add: q_def)
  have mpos: "0 < real_of_int m" using assms(1) by simp
  have "real_of_int ((q - 1) * m) < real_of_int c" using lo by (simp only: of_int_less_iff)
  then have a: "real_of_int q - 1 < real_of_int c / real_of_int m"
    using mpos by (simp add: pos_less_divide_eq)
  have "real_of_int c \<le> real_of_int (q * m)" using hi by (simp only: of_int_le_iff)
  then have b: "real_of_int c / real_of_int m \<le> real_of_int q"
    using mpos by (simp add: pos_divide_le_eq)
  have "\<lceil>real_of_int c / real_of_int m\<rceil> = q" using a b by (rule ceiling_unique)
  then show ?thesis using q0 by (simp add: npages_def q_def)
qed

text \<open>The columns and cells of a slice are those at the positions of its span.\<close>

lemma take_drop_positions:
  assumes "0 \<le> a" "a \<le> b" "b \<le> int (length xs)"
  shows "take (nat b - nat a) (drop (nat a) xs) = map (\<lambda>i. xs ! nat i) [a .. b - 1]"
proof (rule nth_equalityI)
  show len: "length (take (nat b - nat a) (drop (nat a) xs)) = length (map (\<lambda>i. xs ! nat i) [a .. b - 1])"
    using assms by auto
  fix j assume "j < length (take (nat b - nat a) (drop (nat a) xs))"
  then have j: "j < nat b - nat a" by simp
  then have "a + int j \<le> b - 1" using assms by linarith
  then have "[a .. b - 1] ! j = a + int j" by (simp add: nth_upto)
  moreover have "nat (a + int j) = nat a + j" using assms(1) by linarith
  moreover have "nat a + j \<le> length xs" using j assms by linarith
  ultimately show "take (nat b - nat a) (drop (nat a) xs) ! j = map (\<lambda>i. xs ! nat i) [a .. b - 1] ! j"
    using j assms by simp
qed

lemma py_slice_positions:
  assumes "0 \<le> a" "a \<le> b" "b \<le> int (length xs)"
  shows "py_slice a b xs = map (\<lambda>i. xs ! nat i) [a .. b - 1]"
  using py_slice_in_range [OF assms] take_drop_positions [OF assms] by simp

lemma nth_page_bounds:
  assumes "1 \<le> m" "k < npages m c"
  shows "0 \<le> int k * m" "int k * m \<le> min ((int k + 1) * m) c" "min ((int k + 1) * m) c \<le> c"
proof -
  have lt: "int k * m < c" using assms npages_iff by blast
  show "0 \<le> int k * m" using assms(1) by simp
  show "int k * m \<le> min ((int k + 1) * m) c" using lt assms(1) by (simp add: algebra_simps)
  show "min ((int k + 1) * m) c \<le> c" by simp
qed

lemma nth_page_columns:
  assumes "1 \<le> m" "k < npages m (int (length (columns df)))"
  shows "columns (fst (nth_page m df (int (length (columns df))) k)) =
           map (\<lambda>i. columns df ! nat i) (span (nth_page m df (int (length (columns df))) k))"
  using py_slice_positions [OF nth_page_bounds [OF assms]]
  by (simp add: nth_page_def iloc_cols_def span_def slice_start_def slice_end_def)

lemma nth_page_rows:
  assumes "1 \<le> m" "k < npages m (int (length (columns df)))" "wf_table df"
  shows "rows (fst (nth_page m df (int (length (columns df))) k)) =
           map (\<lambda>r. map (\<lambda>i. r ! nat i) (span (nth_page m df (int (length (columns df))) k)))
             (rows df)"
proof -
  have "py_slice (int k * m) (min ((int k + 1) * m) (int (length (columns df)))) r =
        map (\<lambda>i. r ! nat i) [int k * m .. min ((int k + 1) * m) (int (length (columns df))) - 1]"
    if "r \<in> set (rows df)" for r
  proof -
    have "length r = length (columns df)"
      using that assms(3) by (auto simp: wf_table_def list_all_iff)
    then show ?thesis
      using py_slice_positions [OF nth_page_bounds(1,2) [OF assms(1,2)], where xs = r]
        nth_page_bounds(3) [OF assms(1,2)] by simp
  qed
  then show ?thesis
    by (simp add: nth_page_def iloc_cols_def span_def slice_start_def slice_end_def)
qed

text \<open>
  Claim C2.  A table without columns gives the empty list, whatever the width.
  For a width \<open>M\<close> of at least 1 the number of slices is the ceiling of \<open>C / M\<close>,
  and the \<open>k\<close>-th slice (counted from 0) is tagged \<open>k * M\<close> and
  \<open>min ((k + 1) * M) C - 1\<close> and holds the columns at exactly these positions: its
  column labels are the table's labels at the positions of the span, its row
  labels are the table's, and each of its rows is the table's row at the positions
  of the span.
\<close>

theorem slice_count_and_bounds:
  "(columns df = [] \<longrightarrow> slice_dataframe self df = Some []) \<and>
   (1 \<le> max_columns_per_page self \<longrightarrow>
      (\<exists>sl. slice_dataframe self df = Some sl
         \<and> int (length sl) =
             \<lceil>real_of_int (int (length (columns df))) / real_of_int (max_columns_per_page self)\<rceil>
         \<and> (\<forall>k < length sl.
               slice_start (sl ! k) = int k * max_columns_per_page self
             \<and> slice_end (sl ! k) =
                 min ((int k + 1) * max_columns_per_page self) (int (length (columns df))) - 1
             \<and> fst (sl ! k) =
                 iloc_cols df (int k * max_columns_per_page self)
                   (min ((int k + 1) * max_columns_per_page self) (int (length (columns df))))
             \<and> columns (fst (sl ! k)) = map (\<lambda>i. columns df ! nat i) (span (sl ! k))
             \<and> index_labels (fst (sl ! k)) = index_labels df
             \<and> (wf_table df \<longrightarrow>
                  rows (fst (sl ! k)) =
                    map (\<lambda>r. map (\<lambda>i. r ! nat i) (span (sl ! k))) (rows df)))))"
proof (intro conjI impI)
  assume "columns df = []"
  then show "slice_dataframe self df = Some []" by (simp add: slice_dataframe_def)
next
  assume m: "1 \<le> max_columns_per_page self"
  define M where "M = max_columns_per_page self"
  define C where "C = int (length (columns df))"
  define sl where "sl = map (nth_page M df C) [0 ..< npages M C]"
  have M1: "1 \<le> M" using m by (simp add: M_def)
  have run: "slice_dataframe self df = Some sl"
    using slice_dataframe_closed [OF m, where df = df] by (simp add: sl_def M_def C_def)
  have len: "int (length sl) = \<lceil>real_of_int C / real_of_int M\<rceil>"
    using npages_ceiling [OF M1, where c = C] by (simp add: sl_def C_def)
  have each: "slice_start (sl ! k) = int k * M
             \<and> slice_end (sl ! k) = min ((int k + 1) * M) C - 1
             \<and> fst (sl ! k) = iloc_cols df (int k * M) (min ((int k + 1) * M) C)
             \<and> columns (fst (sl ! k)) = map (\<lambda>i. columns df ! nat i) (span (sl ! k))
             \<and> index_labels (fst (sl ! k)) = index_labels df
             \<and> (wf_table df \<longrightarrow>
                  rows (fst (sl ! k)) =
                    map (\<lambda>r. map (\<lambda>i. r ! nat i) (span (sl ! k))) (rows df))"
    if "k < length sl" for k
  proof -
    have k: "k < npages M C" using that by (simp add: sl_def)
    then have nth: "sl ! k = nth_page M df C k" by (simp add: sl_def)
    show ?thesis
      using nth_page_columns [OF M1, where df = df and k = k]
        nth_page_rows [OF M1, where df = df and k = k] k
      by (simp add: nth C_def slice_start_def slice_end_def nth_page_def iloc_cols_def)
  qed
  show "\<exists>sl. slice_dataframe self df = Some sl
         \<and> int (length sl) =
             \<lceil>real_of_int (int (length (columns df))) / real_of_int (max_columns_per_page self)\<rceil>
         \<and> (\<forall>k < length sl.
               slice_start (sl ! k) = int k * max_columns_per_page self
             \<and> slice_end (sl ! k) =
                 min ((int k + 1) * max_columns_per_page self) (int (length (columns df))) - 1
             \<and> fst (sl ! k) =
                 iloc_cols df (int k * max_columns_per_page self)
                   (min ((int k + 1) * max_columns_per_page self) (int (length (columns df))))
             \<and> columns (fst (sl ! k)) = map (\<lambda>i. columns df ! nat i) (span (sl ! k))
             \<and> index_labels (fst (sl ! k)) = index_labels df
             \<and> (wf_table df \<longrightarrow>
                  rows (fst (sl ! k)) =
                    map (\<lambda>r. map (\<lambda>i. r ! nat i) (span (sl ! k))) (rows df)))"
    using run len each unfolding M_def C_def by blast
qed

theorem slice_count_and_bounds_witness:
  "columns \<lparr>columns = [], index_labels = [], rows = []\<rparr> = [] \<and>
   slice_dataframe (ColumnSlicer_init 12) \<lparr>columns = [], index_labels = [], rows = []\<rparr> = Some [] \<and>
   1 \<le> max_columns_per_page (ColumnSlicer_init 2) \<and> wf_table demo_table \<and>
   (\<exists>sl. slice_dataframe (ColumnSlicer_init 2) demo_table = Some sl \<and>
      int (length sl) = \<lceil>real_of_int (int (length (columns demo_table))) / 2\<rceil> \<and>
      (\<forall>k < length sl.
          columns (fst (sl ! k)) = map (\<lambda>i. columns demo_table ! nat i) (span (sl ! k))
        \<and> rows (fst (sl ! k)) =
            map (\<lambda>r. map (\<lambda>i. r ! nat i) (span (sl ! k))) (rows demo_table)))"
proof -
  have h1: "1 \<le> max_columns_per_page (ColumnSlicer_init 2)" by (simp add: ColumnSlicer_init_def)
  have h2: "wf_table demo_table" by (simp add: wf_table_def demo_table_def)
  have e: "columns \<lparr>columns = [], index_labels = [], rows = []\<rparr> = []" by simp
  have a: "slice_dataframe (ColumnSlicer_init 12) \<lparr>columns = [], index_labels = [], rows = []\<rparr> = Some []"
    using slice_count_and_bounds [of "\<lparr>columns = [], index_labels = [], rows = []\<rparr>" "ColumnSlicer_init 12"]
    by simp
  have b: "\<exists>sl. slice_dataframe (ColumnSlicer_init 2) demo_table = Some sl \<and>
      int (length sl) = \<lceil>real_of_int (int (length (columns demo_table))) / 2\<rceil> \<and>
      (\<forall>k < length sl.
          columns (fst (sl ! k)) = map (\<lambda>i. columns demo_table ! nat i) (span (sl ! k))
        \<and> rows (fst (sl ! k)) =
            map (\<lambda>r. map (\<lambda>i. r ! nat i) (span (sl ! k))) (rows demo_table))"
    using slice_count_and_bounds [of demo_table "ColumnSlicer_init 2"] h1 h2
    by (simp add: ColumnSlicer_init_def) blast
  show ?thesis using h1 h2 e a b by blast
qed


text \<open>
  Claim C10.  For a width of at least 1 slicing returns: the loop returns from
  every state, because each iteration moves the start index up by at least 1 and
  never past the column count.  For a width of 0 or less the loop makes no
  progress, and slicing a table that has columns never returns.
\<close>

theorem slicing_terminates:
  "(1 \<le> max_columns_per_page self \<longrightarrow>
      (\<exists>sl. slice_dataframe self df = Some sl)
      \<and> (\<forall>total start acc. \<exists>r.
            slice_loop (max_columns_per_page self) df total start acc = Some r)
      \<and> (\<forall>total start. start < total \<longrightarrow>
            start + 1 \<le> min (start + max_columns_per_page self) total
          \<and> min (start + max_columns_per_page self) total \<le> total)) \<and>
   (max_columns_per_page self \<le> 0 \<and> columns df \<noteq> [] \<longrightarrow>
      slice_dataframe self df = None)"
proof (intro conjI impI allI)
  assume m: "1 \<le> max_columns_per_page self"
  show "\<exists>sl. slice_dataframe self df = Some sl"
    using slice_dataframe_closed [OF m] by simp
  show "\<And>total start acc. \<exists>r. slice_loop (max_columns_per_page self) df total start acc = Some r"
    using slice_loop_total [OF m] by simp
  show "\<And>total start::int. start < total \<Longrightarrow>
      start + 1 \<le> min (start + max_columns_per_page self) total" using m by simp
  show "\<And>total start::int. min (start + max_columns_per_page self) total \<le> total" by simp
next
  assume "max_columns_per_page self \<le> 0 \<and> columns df \<noteq> []"
  then show "slice_dataframe self df = None"
    by (simp add: slice_dataframe_def slice_loop_diverges)
qed

theorem slicing_terminates_witness:
  "1 \<le> max_columns_per_page (ColumnSlicer_init 2) \<and>
   (\<exists>sl. slice_dataframe (ColumnSlicer_init 2) demo_table = Some sl) \<and>
   max_columns_per_page (ColumnSlicer_init 0) \<le> 0 \<and> columns demo_table \<noteq> [] \<and>
   slice_dataframe (ColumnSlicer_init 0) demo_table = None"
  using slicing_terminates [of "ColumnSlicer_init 2" demo_table]
    slicing_terminates [of "ColumnSlicer_init 0" demo_table]
  by (simp add: ColumnSlicer_init_def demo_table_def)

text \<open>
  The plan \<open>get_slice_info\<close> computes for a width of at least 1.  The last
  page's column count is the remainder, or the width when the remainder is 0;
  this holds for a table without columns too.
\<close>

lemma get_slice_info_plan:
  assumes "1 \<le> max_columns_per_page self"
  shows "get_slice_info self df =
     Inr \<lparr>total_columns = int (length (columns df)),
          info_max_columns_per_page = max_columns_per_page self,
          num_pages = \<lceil>real_of_int (int (length (columns df)))
                        / real_of_int (max_columns_per_page self)\<rceil>,
          last_page_columns =
            (if int (length (columns df)) mod max_columns_per_page self = 0
             then max_columns_per_page self
             else int (length (columns df)) mod max_columns_per_page self)\<rparr>"
  using assms npages_ceiling [OF assms, where c = "int (length (columns df))"]
  by (simp add: get_slice_info_def Let_def py_or_def npages_def pos_imp_zdiv_nonneg_iff)

text \<open>
  Claim C3.  For a table without columns and the default width 12, the plan
  has 0 pages and yet 12 columns on the last page.
\<close>

theorem get_slice_info_no_columns:
  "get_slice_info (ColumnSlicer_init 12) \<lparr>columns = [], index_labels = [], rows = []\<rparr> =
     Inr \<lparr>total_columns = 0, info_max_columns_per_page = 12,
          num_pages = 0, last_page_columns = 12\<rparr>"
  by (simp add: get_slice_info_def ColumnSlicer_init_def py_or_def)


section \<open>Properties of the cell formatter\<close>

lemma digit_char_is_digit: "d < 10 \<Longrightarrow> is_digit (digit_char d)"
proof -
  assume "d < 10"
  then have "d \<in> {0, 1, 2, 3, 4, 5, 6, 7, 8, 9}" by auto
  then show ?thesis by (auto simp: is_digit_def digit_char_def)
qed

lemma str_nat_digits: "list_all is_digit (str_nat n) \<and> str_nat n \<noteq> []"
proof (induction n rule: str_nat.induct)
  case (1 n)
  show ?case
  proof (cases "n < 10")
    case True
    then show ?thesis by (subst (1 2) str_nat.simps) (simp add: digit_char_is_digit)
  next
    case False
    then show ?thesis using 1
      by (subst (1 2) str_nat.simps) (simp add: digit_char_is_digit)
  qed
qed

lemma is_digit_not_point: "is_digit c \<Longrightarrow> c \<noteq> CHR ''.'' \<and> c \<noteq> CHR ''-''"
  by (auto simp: is_digit_def)

lemma str_int_no_point: "CHR ''.'' \<notin> set (str_int i)"
  using str_nat_digits is_digit_not_point
  by (auto simp: str_int_def list_all_iff)

lemma two_decimals_plain:
  assumes "list_all is_digit body" "body \<noteq> []" "is_digit d1" "is_digit d2"
  shows "two_decimals (body @ CHR ''.'' # [d1, d2])"
proof -
  have "hd body \<noteq> CHR ''-''"
    using assms(1,2) is_digit_not_point by (cases body) auto
  then have "hd (body @ CHR ''.'' # [d1, d2]) \<noteq> CHR ''-''" using assms(2) by simp
  moreover have "Suc 0 \<le> length body" using assms(2) by (cases body) auto
  ultimately show ?thesis using assms
    by (simp add: two_decimals_def Let_def nth_append)
qed

lemma two_decimals_minus:
  assumes "list_all is_digit body" "body \<noteq> []" "is_digit d1" "is_digit d2"
  shows "two_decimals (CHR ''-'' # body @ CHR ''.'' # [d1, d2])"
proof -
  have "Suc 0 \<le> length body" using assms(2) by (cases body) auto
  then show ?thesis using assms by (simp add: two_decimals_def Let_def nth_append)
qed

lemma two_decimals_format_2f: "two_decimals (format_2f (Finite q))"
proof -
  define n where "n = nat (round_half_even (\<bar>q\<bar> * 100))"
  define body where "body = str_nat (n div 100)"
  define d1 where "d1 = digit_char (n div 10 mod 10)"
  define d2 where "d2 = digit_char (n mod 10)"
  have body: "list_all is_digit body" "body \<noteq> []"
    using str_nat_digits by (simp_all add: body_def)
  have d: "is_digit d1" "is_digit d2" by (simp_all add: d1_def d2_def digit_char_is_digit)
  have "format_2f (Finite q) =
      (if q < 0 then CHR ''-'' # body @ CHR ''.'' # [d1, d2] else body @ CHR ''.'' # [d1, d2])"
    by (simp add: format_2f_def Let_def n_def body_def d1_def d2_def)
  then show ?thesis
    using two_decimals_plain [OF body d] two_decimals_minus [OF body d] by simp
qed

text \<open>
  What the formatter returns, branch by branch: the empty text for a missing
  value, the integer text for an integral float, the two-decimal text for any
  other finite float, and \<open>str\<close> of the value for anything that is not a float.
\<close>

lemma format_cell_missing: "pd_isna v \<Longrightarrow> md_format_cell v = Inr ''''"
  by (simp add: md_format_cell_def)

lemma format_cell_integral:
  "md_format_cell (PFloat (Finite (of_int i))) = Inr (str_int i)"
  by (simp add: md_format_cell_def pd_isna_def py_int_def float_ne_int_def)

lemma format_cell_fractional:
  assumes "q \<notin> \<int>"
  shows "md_format_cell (PFloat (Finite q)) = Inr (format_2f (Finite q))"
proof -
  have "q \<noteq> of_int i" for i using assms by auto
  then show ?thesis
    by (simp add: md_format_cell_def pd_isna_def py_int_def float_ne_int_def)
qed

lemma format_cell_other:
  "md_format_cell (PInt i) = Inr (str_int i)"
  "md_format_cell (PBool b) = Inr (if b then ''True'' else ''False'')"
  "md_format_cell (PStr s) = Inr s"
  "md_format_cell (PObj s) = Inr s"
  by (simp_all add: md_format_cell_def pd_isna_def)

lemma format_cell_finite:
  "\<exists>s. md_format_cell (PFloat (Finite q)) = Inr s"
  by (simp add: md_format_cell_def pd_isna_def py_int_def)

lemma floor_rat_numeral:
  "\<lfloor>(numeral a / numeral b :: rat)\<rfloor> = numeral a div numeral b"
  using floor_divide_of_int_eq [of "numeral a" "numeral b", where ?'a = rat] by simp

lemmas eval_format_cell =
  md_format_cell_def pd_isna_def py_int_def float_ne_int_def format_2f_def
  round_half_even_def Let_def floor_rat_numeral str_int_def str_nat.simps digit_char_def

text \<open>
  The scenarios of the specification: \<open>1234.0\<close> renders as \<open>1234\<close>, \<open>1234.5\<close> as
  \<open>1234.50\<close>; a tie rounds to the even neighbour, and a negative value keeps its sign.
\<close>

lemma format_cell_example_integral:
  "md_format_cell (PFloat (Finite 1234)) = Inr ''1234''"
  by (simp add: eval_format_cell)

lemma format_cell_example_fractional:
  "md_format_cell (PFloat (Finite (2469 / 2))) = Inr ''1234.50''"
  by (simp add: eval_format_cell)

lemma format_cell_example_negative:
  "md_format_cell (PFloat (Finite (- 3 / 8))) = Inr ''-0.38''"
  by (simp add: eval_format_cell)

lemma format_cell_example_missing:
  "md_format_cell (PFloat NaN) = Inr [] \<and> md_format_cell PNone = Inr []"
  by (simp add: md_format_cell_def pd_isna_def)

text \<open>
  Claim C4.  The formatter does not return a text for every cell value: on an
  infinite float the conversion \<open>int(value)\<close> raises \<open>OverflowError\<close>, before
  either branch of the float case is taken.
\<close>

theorem format_cell_infinity_raises:
  "md_format_cell (PFloat PosInf) = Inl OverflowError \<and>
   md_format_cell (PFloat NegInf) = Inl OverflowError"
  by (simp add: md_format_cell_def pd_isna_def py_int_def)

text \<open>
  Claim C5.  The formatter of the Markdown path and the formatter of the HTML
  path are the same function: the same text, and the same exception, for every
  cell value.
\<close>

theorem format_cell_paths_agree: "md_format_cell = html_format_cell"
  by (rule ext) (simp add: md_format_cell_def html_format_cell_def)


section \<open>Properties of the combiners\<close>














section \<open>Properties of the Markdown rendering\<close>

lemma map_result_length: "map_result f xs = Inr ys \<Longrightarrow> length ys = length xs"
  by (induction xs arbitrary: ys) (auto split: sum.splits)

lemma md_data_rows_closed:
  assumes "map_result (map_result md_format_cell) (map snd items) = Inr cells"
  shows "md_data_rows False items markdown =
           Inr (markdown @ concat (map (\<lambda>row. md_line (map escape_pipes row)) cells))"
  using assms
proof (induction items arbitrary: markdown cells)
  case Nil
  then show ?case by simp
next
  case (Cons item items)
  obtain idx row where item: "item = (idx, row)" by (cases item)
  from Cons.prems obtain c cs where
    c: "map_result md_format_cell row = Inr c" and
    cs: "map_result (map_result md_format_cell) (map snd items) = Inr cs" and
    cells: "cells = c # cs"
    by (auto simp: item split: sum.splits)
  show ?case using Cons.IH [OF cs] c
    by (simp add: item cells md_line_def Let_def)
qed

lemma md_data_rows_raises:
  assumes "map_result (map_result md_format_cell) (map snd items) = Inl e"
  shows "md_data_rows False items markdown = Inl e"
  using assms
proof (induction items arbitrary: markdown)
  case Nil
  then show ?case by simp
next
  case (Cons item items)
  obtain idx row where item: "item = (idx, row)" by (cases item)
  show ?case
  proof (cases "map_result md_format_cell row")
    case (Inl e')
    then show ?thesis using Cons.prems by (simp add: item)
  next
    case (Inr c)
    then have "map_result (map_result md_format_cell) (map snd items) = Inl e"
      using Cons.prems by (auto simp: item split: sum.splits)
    from Cons.IH [OF this] show ?thesis using Inr by (simp add: item Let_def)
  qed
qed

lemma df_values_length: "length (df_values df) = length (rows df)"
  by (simp add: df_values_def Let_def)

lemma manual_markdown_conversion_closed:
  assumes "wf_table df"
    and "map_result (map_result md_format_cell) (df_values df) = Inr cells"
  shows "manual_markdown_conversion df False =
     Inr (md_line (map escape_pipes (map label_str (columns df)))
          @ md_line (map (\<lambda>_. ''---'') (columns df))
          @ concat (map (\<lambda>row. md_line (map escape_pipes row)) cells))"
proof -
  have "map snd (zip (index_labels df) (df_values df)) = df_values df"
    using assms(1) by (simp add: wf_table_def df_values_length)
  then show ?thesis
    using md_data_rows_closed [where items = "zip (index_labels df) (df_values df)"
        and cells = cells] assms(2)
    by (simp add: manual_markdown_conversion_def Let_def md_line_def comp_def)
qed

lemma pipes_escaped_append:
  assumes "pipes_escaped xs" "pipes_escaped ys"
  shows "pipes_escaped (xs @ ys)"
  unfolding pipes_escaped_def
proof (intro allI impI)
  fix i assume i: "i < length (xs @ ys)" and p: "(xs @ ys) ! i = CHR ''|''"
  show "0 < i \<and> (xs @ ys) ! (i - 1) = backslash"
  proof (cases "i < length xs")
    case True
    then show ?thesis using assms(1) p by (auto simp: pipes_escaped_def nth_append)
  next
    case False
    then have j: "i - length xs < length ys" "ys ! (i - length xs) = CHR ''|''"
      using i p by (auto simp: nth_append)
    then have "0 < i - length xs \<and> ys ! (i - length xs - 1) = backslash"
      using assms(2) by (auto simp: pipes_escaped_def)
    then show ?thesis using False by (auto simp: nth_append)
  qed
qed

lemma pipes_escaped_escape: "pipes_escaped (escape_pipes s)"
proof (induction s)
  case Nil
  then show ?case by (simp add: escape_pipes_def pipes_escaped_def)
next
  case (Cons c s)
  have one: "pipes_escaped (if c = CHR ''|'' then [backslash, CHR ''|''] else [c])"
    by (auto simp: pipes_escaped_def less_Suc_eq)
  have "escape_pipes (c # s) = (if c = CHR ''|'' then [backslash, CHR ''|''] else [c]) @ escape_pipes s"
    by (simp add: escape_pipes_def)
  then show ?case using pipes_escaped_append [OF one Cons] by simp
qed

text \<open>
  Claim C6, as stated, fails where pandas has \<open>to_markdown\<close>: the table text is
  then what the built-in returns, and the pipes of the label \<open>a|b\<close> and of the
  cell \<open>x|y\<close> are not escaped.
\<close>

theorem builtin_path_leaves_pipes:
  "dataframe_to_markdown default_config (Some sample_to_markdown) pipe_table 1 0 0 False
     = Inr (md_heading (''Page 1 '' @ [CHR 0xE2, CHR 0x80, CHR 0x93] @ '' Columns 0-0'') 1 0 0
            @ (''| a|b   |'' @ newline @ ''|:------|'' @ newline @ ''| x|y   |'')
            @ md_trailer)
   \<and> dataframe_to_markdown default_config (Some sample_to_markdown) pipe_table 1 0 0 False
     \<noteq> Inr (md_page (''Page 1 '' @ [CHR 0xE2, CHR 0x80, CHR 0x93] @ '' Columns 0-0'')
              1 0 0 [''a|b''] [[''x|y'']])"
  by (simp add: dataframe_to_markdown_def page_label_def default_config_def
      default_page_label_format_def lookup_field_def is_digit_def sample_to_markdown_def
      md_page_def md_heading_def md_line_def md_trailer_def escape_pipes_def
      str_int_def str_nat.simps digit_char_def Let_def)

text \<open>
  Claim C6, amended.  On the fallback path (the DataFrame has no \<open>to_markdown\<close>),
  when the label template formats and the formatter returns for every cell, the
  rendering is the heading with the page label, the metadata line, a rule, the
  header line, the separator line, one line per row with every cell passed
  through the formatter and every pipe of a header or cell escaped, and the
  closing rule; a table without rows gives the header and separator lines only.
  Where the built-in exists, the table text is what it returns, as it is,
  between the heading and the closing rule.
\<close>

theorem markdown_fallback_page:
  assumes "wf_table df"
  shows "(\<forall>label cells.
            page_label cfg p s e = Inr label
          \<and> map_result (map_result md_format_cell) (df_values df) = Inr cells \<longrightarrow>
              dataframe_to_markdown cfg None df p s e False =
                Inr (md_page label p s e (map label_str (columns df)) cells)
            \<and> length cells = length (rows df)
            \<and> (\<forall>h \<in> set (columns df). pipes_escaped (escape_pipes (label_str h)))
            \<and> (\<forall>row \<in> set cells. \<forall>c \<in> set row. pipes_escaped (escape_pipes c)))
       \<and> (\<forall>label. page_label cfg p s e = Inr label \<and> rows df = [] \<longrightarrow>
              dataframe_to_markdown cfg None df p s e False =
                Inr (md_heading label p s e
                     @ md_line (map escape_pipes (map label_str (columns df)))
                     @ md_line (map (\<lambda>_. ''---'') (columns df))
                     @ md_trailer))
       \<and> (\<forall>f label t. page_label cfg p s e = Inr label \<and> f df False = Inr t \<longrightarrow>
              dataframe_to_markdown cfg (Some f) df p s e False =
                Inr (md_heading label p s e @ t @ md_trailer))"
proof (intro conjI allI impI)
  fix label cells
  assume a: "page_label cfg p s e = Inr label
          \<and> map_result (map_result md_format_cell) (df_values df) = Inr cells"
  show "dataframe_to_markdown cfg None df p s e False =
                Inr (md_page label p s e (map label_str (columns df)) cells)"
    using a manual_markdown_conversion_closed [OF assms, of cells]
    by (simp add: dataframe_to_markdown_def Let_def md_page_def md_heading_def md_trailer_def
        comp_def)
  show "length cells = length (rows df)"
    using a map_result_length [of "map_result md_format_cell" "df_values df" cells]
    by (simp add: df_values_length)
  show "\<forall>h \<in> set (columns df). pipes_escaped (escape_pipes (label_str h))"
    by (simp add: pipes_escaped_escape)
  show "\<forall>row \<in> set cells. \<forall>c \<in> set row. pipes_escaped (escape_pipes c)"
    by (simp add: pipes_escaped_escape)
next
  fix label
  assume a: "page_label cfg p s e = Inr label \<and> rows df = []"
  then have "df_values df = []" by (simp add: df_values_def Let_def)
  then have "map_result (map_result md_format_cell) (df_values df) = Inr []" by simp
  from manual_markdown_conversion_closed [OF assms this] a
  show "dataframe_to_markdown cfg None df p s e False =
                Inr (md_heading label p s e
                     @ md_line (map escape_pipes (map label_str (columns df)))
                     @ md_line (map (\<lambda>_. ''---'') (columns df))
                     @ md_trailer)"
    by (simp add: dataframe_to_markdown_def Let_def md_heading_def md_trailer_def)
next
  fix f :: "table \<Rightarrow> bool \<Rightarrow> error + string" and label t :: string
  assume "page_label cfg p s e = Inr label \<and> f df False = Inr t"
  then show "dataframe_to_markdown cfg (Some f) df p s e False =
                Inr (md_heading label p s e @ t @ md_trailer)"
    by (simp add: dataframe_to_markdown_def Let_def md_heading_def md_trailer_def)
qed

lemma demo_table_values:
  "df_values demo_table = rows demo_table"
  by (simp add: df_values_def demo_table_def column_dtype_def Let_def)

theorem markdown_fallback_page_witness:
  "wf_table demo_table
   \<and> page_label default_config 1 0 2 =
        Inr (''Page 1 '' @ [CHR 0xE2, CHR 0x80, CHR 0x93] @ '' Columns 0-2'')
   \<and> map_result (map_result md_format_cell) (df_values demo_table) =
        Inr [[''1'', ''a|b'', ''1234.50''], [''2'', [], ''1234'']]
   \<and> dataframe_to_markdown default_config None demo_table 1 0 2 False =
        Inr (md_page (''Page 1 '' @ [CHR 0xE2, CHR 0x80, CHR 0x93] @ '' Columns 0-2'') 1 0 2
               [''id'', ''name'', ''amount'']
               [[''1'', ''a|b'', ''1234.50''], [''2'', [], ''1234'']])"
proof -
  have h1: "wf_table demo_table" by (simp add: wf_table_def demo_table_def)
  have h2: "page_label default_config 1 0 2 =
        Inr (''Page 1 '' @ [CHR 0xE2, CHR 0x80, CHR 0x93] @ '' Columns 0-2'')"
    by (simp add: page_label_def default_config_def default_page_label_format_def
        lookup_field_def is_digit_def str_int_def str_nat.simps digit_char_def)
  have h3: "map_result (map_result md_format_cell) (df_values demo_table) =
        Inr [[''1'', ''a|b'', ''1234.50''], [''2'', [], ''1234'']]"
    by (simp add: demo_table_values) (simp add: demo_table_def eval_format_cell)
  have h4: "map label_str (columns demo_table) = [''id'', ''name'', ''amount'']"
    by (simp add: demo_table_def label_str_def)
  from markdown_fallback_page [OF h1, where cfg = default_config and p = 1 and s = 0 and e = 2]
    h2 h3 h4
  have "dataframe_to_markdown default_config None demo_table 1 0 2 False =
        Inr (md_page (''Page 1 '' @ [CHR 0xE2, CHR 0x80, CHR 0x93] @ '' Columns 0-2'') 1 0 2
               [''id'', ''name'', ''amount'']
               [[''1'', ''a|b'', ''1234.50''], [''2'', [], ''1234'']])"
    by auto
  then show ?thesis using h1 h2 h3 by blast
qed


section \<open>Properties of the pipeline\<close>

lemma write_file_unwritable:
  "write_file fs p c = Inr fs' \<Longrightarrow> unwritable fs' = unwritable fs"
  by (auto simp: write_file_def split: option.splits)

lemma write_file_cong:
  "unwritable fs = unwritable fs2 \<Longrightarrow>
     isl (write_file fs p c) = isl (write_file fs2 p c)"
  by (auto simp: write_file_def split: option.splits)

lemma html_to_pdf_unwritable:
  "unwritable (snd (html_to_pdf wp cfg fs h p)) = unwritable fs"
  by (auto simp: html_to_pdf_def dest: write_file_unwritable split: sum.splits)

lemma html_to_pdf_cong:
  assumes "unwritable fs = unwritable fs2"
  shows "fst (html_to_pdf wp cfg fs h p) = fst (html_to_pdf wp cfg fs2 h p)"
proof -
  have w: "(\<exists>x. write_file fs p c = Inr x) = (\<exists>x. write_file fs2 p c = Inr x)" for c
    using assms by (auto simp: write_file_def split: option.splits)
  show ?thesis
    using w by (auto simp: html_to_pdf_def split: sum.splits) (metis Inl_Inr_False sum.exhaust)+
qed

lemma export_unwritable:
  "unwritable (snd (export_dataframe_slice wp cfg d fs h n)) = unwritable fs"
proof -
  define target where "target = path_join d (''page_'' @ str_int n @ ''.pdf'')"
  obtain ok fs' where r: "html_to_pdf wp cfg fs h target = (ok, fs')"
    by (cases "html_to_pdf wp cfg fs h target") auto
  then have "unwritable fs' = unwritable fs"
    using html_to_pdf_unwritable [of wp cfg fs h target] by simp
  then show ?thesis using r
    by (simp add: export_dataframe_slice_def Let_def target_def)
qed

lemma export_cong:
  assumes "unwritable fs = unwritable fs2"
  shows "fst (export_dataframe_slice wp cfg d fs h n) = fst (export_dataframe_slice wp cfg d fs2 h n)"
proof -
  define target where "target = path_join d (''page_'' @ str_int n @ ''.pdf'')"
  obtain ok fs' where r: "html_to_pdf wp cfg fs h target = (ok, fs')"
    by (cases "html_to_pdf wp cfg fs h target") auto
  obtain ok2 fs2' where r2: "html_to_pdf wp cfg fs2 h target = (ok2, fs2')"
    by (cases "html_to_pdf wp cfg fs2 h target") auto
  have "ok = ok2" using html_to_pdf_cong [OF assms, of wp cfg h target] r r2 by simp
  then show ?thesis using r r2
    by (simp add: export_dataframe_slice_def Let_def target_def)
qed

lemma page_path_cong:
  assumes "unwritable fs = unwritable fs2"
  shows "page_path ev self fs item = page_path ev self fs2 item"
  using export_cong [OF assms]
  by (simp add: page_path_def split: prod.splits sum.splits)

lemma process_slices_paths:
  "fst (process_slices ev self items fs acc) = acc @ List.map_filter (page_path ev self fs) items"
proof (induction items arbitrary: fs acc)
  case Nil
  then show ?case by (simp add: List.map_filter_simps)
next
  case (Cons item items)
  obtain idx slice_df start_col end_col where item: "item = (idx, slice_df, start_col, end_col)"
    by (cases item) auto
  show ?case
  proof (cases "render_table (p_config self) (get_template ev) slice_df idx start_col end_col None")
    case (Inl e)
    then have head: "page_path ev self fs item = None" by (simp add: item page_path_def)
    have step: "process_slices ev self (item # items) fs acc = process_slices ev self items fs acc"
      using Inl by (simp add: item)
    show ?thesis using Cons [of fs acc] head by (simp add: step List.map_filter_simps)
  next
    case (Inr html)
    obtain r fs' where ex: "export_dataframe_slice (weasy ev) (p_config self) (p_output_dir self)
                  fs html idx = (r, fs')" by (cases "export_dataframe_slice (weasy ev) (p_config self) (p_output_dir self)
                  fs html idx") auto
    have uw: "unwritable fs' = unwritable fs"
      using export_unwritable [of "weasy ev" "p_config self" "p_output_dir self" fs html idx] ex
      by simp
    have same: "List.map_filter (page_path ev self fs') items = List.map_filter (page_path ev self fs) items"
      using page_path_cong [OF uw] by (simp add: List.map_filter_def)
    have head: "page_path ev self fs item = (case r of Inl e \<Rightarrow> None | Inr pdf_path \<Rightarrow> Some pdf_path)"
      using Inr ex by (simp add: item page_path_def)
    show ?thesis
    proof (cases r)
      case (Inl e)
      then have step: "process_slices ev self (item # items) fs acc = process_slices ev self items fs' acc"
        using \<open>render_table (p_config self) (get_template ev) slice_df idx start_col end_col None = Inr html\<close> ex
        by (simp add: item)
      show ?thesis using Cons [of fs' acc] same head Inl
        by (simp add: step List.map_filter_simps)
    next
      case (Inr pdf_path)
      then have step: "process_slices ev self (item # items) fs acc =
          process_slices ev self items fs' (acc @ [pdf_path])"
        using \<open>render_table (p_config self) (get_template ev) slice_df idx start_col end_col None = Inr html\<close> ex
        by (simp add: item)
      show ?thesis using Cons [of fs' "acc @ [pdf_path]"] same head Inr
        by (simp add: step List.map_filter_simps)
    qed
  qed
qed

text \<open>
  Claim C8.  A table that cannot be read gives a failed run with the exception as
  its reason.  For a width of at least 1 and a table that is read, the run
  completes: the pages are those of the slices whose rendering and export
  succeed, each judged alone, in slice order, and \<open>total_pages\<close> is their number.
  A width of 0 gives a failed run with \<open>ZeroDivisionError\<close> as its reason, and with
  a width below 0 the run of a table that has columns never returns.
\<close>

theorem process_partial_failure:
  "(\<forall>e. read_excel ev input_file sheet = Inl e \<longrightarrow>
       process ev self fs input_file sheet = Some (Failure e input_file, fs))
   \<and> (1 \<le> max_columns_per_page (p_slicer self) \<longrightarrow>
       (\<forall>df. read_excel ev input_file sheet = Inr df \<longrightarrow>
          (\<exists>slices res fs'.
              slice_dataframe (p_slicer self) df = Some slices
            \<and> process ev self fs input_file sheet = Some (Success res, fs')
            \<and> individual_pdfs res =
                List.map_filter (page_path ev self fs) (zip [1 .. int (length slices)] slices)
            \<and> total_pages res = int (length (individual_pdfs res))
            \<and> res_input_file res = input_file)))
   \<and> (max_columns_per_page (p_slicer self) = 0 \<longrightarrow>
       (\<forall>df. read_excel ev input_file sheet = Inr df \<longrightarrow>
          process ev self fs input_file sheet = Some (Failure ZeroDivisionError input_file, fs)))
   \<and> (max_columns_per_page (p_slicer self) < 0 \<longrightarrow>
       (\<forall>df. read_excel ev input_file sheet = Inr df \<and> columns df \<noteq> [] \<longrightarrow>
          process ev self fs input_file sheet = None))"
proof (intro conjI allI impI)
  fix e assume "read_excel ev input_file sheet = Inl e"
  then show "process ev self fs input_file sheet = Some (Failure e input_file, fs)"
    by (simp add: process_def)
next
  fix df
  assume m: "1 \<le> max_columns_per_page (p_slicer self)"
    and r: "read_excel ev input_file sheet = Inr df"
  obtain slices where sl: "slice_dataframe (p_slicer self) df = Some slices"
    using slice_dataframe_closed [OF m] by blast
  obtain info where info: "get_slice_info (p_slicer self) df = Inr info"
    using get_slice_info_plan [OF m] by blast
  define items where "items = zip [1 .. int (length slices)] slices"
  obtain pdf_paths fs1 where loop: "process_slices ev self items fs [] = (pdf_paths, fs1)"
    by (cases "process_slices ev self items fs []") auto
  have paths: "pdf_paths = List.map_filter (page_path ev self fs) items"
    using process_slices_paths [of ev self items fs "[]"] loop by simp
  have "\<exists>res fs'. process ev self fs input_file sheet = Some (Success res, fs')
            \<and> individual_pdfs res = pdf_paths
            \<and> total_pages res = int (length pdf_paths)
            \<and> res_input_file res = input_file"
    using r sl info loop
    by (simp add: process_def items_def Let_def split: prod.splits)
  then show "\<exists>slices res fs'.
              slice_dataframe (p_slicer self) df = Some slices
            \<and> process ev self fs input_file sheet = Some (Success res, fs')
            \<and> individual_pdfs res =
                List.map_filter (page_path ev self fs) (zip [1 .. int (length slices)] slices)
            \<and> total_pages res = int (length (individual_pdfs res))
            \<and> res_input_file res = input_file"
    using sl paths unfolding items_def by auto
next
  fix df
  assume "max_columns_per_page (p_slicer self) = 0"
    and "read_excel ev input_file sheet = Inr df"
  then show "process ev self fs input_file sheet = Some (Failure ZeroDivisionError input_file, fs)"
    by (simp add: process_def get_slice_info_def)
next
  fix df
  assume m: "max_columns_per_page (p_slicer self) < 0"
    and r: "read_excel ev input_file sheet = Inr df \<and> columns df \<noteq> []"
  have "slice_dataframe (p_slicer self) df = None"
    using m r slice_loop_diverges [of "max_columns_per_page (p_slicer self)" 0
        "int (length (columns df))" df "[]"]
    by (simp add: slice_dataframe_def)
  then show "process ev self fs input_file sheet = None"
    using m r by (simp add: process_def get_slice_info_def Let_def)
qed


text \<open>The run of the small table at width 2, the template failing on page 1.\<close>

lemma demo_slices:
  "slice_dataframe (p_slicer demo_pipeline) demo_table =
     Some [(\<lparr>columns = [LStr ''id'', LStr ''name''], index_labels = [LInt 0, LInt 1],
              rows = [[PInt 1, PStr ''a|b''], [PInt 2, PNone]]\<rparr>, 0, 1),
           (\<lparr>columns = [LStr ''amount''], index_labels = [LInt 0, LInt 1],
              rows = [[PFloat (Finite (2469 / 2))], [PFloat (Finite 1234)]]\<rparr>, 2, 2)]"
  by (simp add: demo_pipeline_def pipeline_init_def default_config_def ColumnSlicer_init_def
      slice_dataframe_def slice_loop.simps demo_table_def iloc_cols_def py_slice_def
      py_clamp_def Let_def)

lemma demo_page_1:
  "page_path demo_env demo_pipeline no_files
     (1, \<lparr>columns = [LStr ''id'', LStr ''name''], index_labels = [LInt 0, LInt 1],
              rows = [[PInt 1, PStr ''a|b''], [PInt 2, PNone]]\<rparr>, 0, 1) = None"
  by (simp add: page_path_def demo_env_def render_table_def demo_pipeline_def pipeline_init_def
      default_config_def page_label_def default_page_label_format_def lookup_field_def
      is_digit_def str_int_def str_nat.simps digit_char_def df_values_def column_dtype_def
      Let_def html_format_cell_def pd_isna_def split: sum.splits)

lemma demo_page_2:
  "page_path demo_env demo_pipeline no_files
     (2, \<lparr>columns = [LStr ''amount''], index_labels = [LInt 0, LInt 1],
              rows = [[PFloat (Finite (2469 / 2))], [PFloat (Finite 1234)]]\<rparr>, 2, 2)
   = Some ''output/page_2.pdf''"
  by (simp add: page_path_def demo_env_def render_table_def demo_pipeline_def pipeline_init_def
      default_config_def page_label_def default_page_label_format_def lookup_field_def
      is_digit_def str_int_def str_nat.simps digit_char_def df_values_def column_dtype_def
      upcast_cell_def
      Let_def html_format_cell_def pd_isna_def py_int_def float_ne_int_def format_2f_def
      round_half_even_def floor_rat_numeral
      export_dataframe_slice_def html_to_pdf_def write_file_def path_exists_def path_join_def
      no_files_def)

theorem process_partial_failure_witness:
  "read_excel demo_env ''lost.xlsx'' None = Inl (OSError ''No such file or directory'')
   \<and> process demo_env demo_pipeline no_files ''lost.xlsx'' None =
       Some (Failure (OSError ''No such file or directory'') ''lost.xlsx'', no_files)
   \<and> 1 \<le> max_columns_per_page (p_slicer demo_pipeline)
   \<and> read_excel demo_env ''data.xlsx'' None = Inr demo_table
   \<and> (\<exists>res fs'. process demo_env demo_pipeline no_files ''data.xlsx'' None = Some (Success res, fs')
        \<and> individual_pdfs res = [''output/page_2.pdf'']
        \<and> total_pages res = 1
        \<and> res_input_file res = ''data.xlsx'')
   \<and> max_columns_per_page (p_slicer (demo_pipeline\<lparr>p_slicer := ColumnSlicer_init 0\<rparr>)) = 0
   \<and> process demo_env (demo_pipeline\<lparr>p_slicer := ColumnSlicer_init 0\<rparr>) no_files
         ''data.xlsx'' None = Some (Failure ZeroDivisionError ''data.xlsx'', no_files)
   \<and> max_columns_per_page (p_slicer (demo_pipeline\<lparr>p_slicer := ColumnSlicer_init (- 3)\<rparr>)) < 0
   \<and> columns demo_table \<noteq> []
   \<and> process demo_env (demo_pipeline\<lparr>p_slicer := ColumnSlicer_init (- 3)\<rparr>) no_files
         ''data.xlsx'' None = None"
proof -
  have h0: "read_excel demo_env ''lost.xlsx'' None = Inl (OSError ''No such file or directory'')"
    by (simp add: demo_env_def)
  have h1: "1 \<le> max_columns_per_page (p_slicer demo_pipeline)"
    by (simp add: demo_pipeline_def pipeline_init_def ColumnSlicer_init_def default_config_def)
  have h2: "read_excel demo_env ''data.xlsx'' None = Inr demo_table"
    by (simp add: demo_env_def)
  have a: "process demo_env demo_pipeline no_files ''lost.xlsx'' None =
       Some (Failure (OSError ''No such file or directory'') ''lost.xlsx'', no_files)"
    using process_partial_failure
      [where ev = demo_env and self = demo_pipeline and fs = no_files
         and input_file = "''lost.xlsx''" and sheet = None] h0
    by blast
  from process_partial_failure
      [where ev = demo_env and self = demo_pipeline and fs = no_files
         and input_file = "''data.xlsx''" and sheet = None] h1 h2
  obtain sl res fs' where
    sl: "slice_dataframe (p_slicer demo_pipeline) demo_table = Some sl"
    and run: "process demo_env demo_pipeline no_files ''data.xlsx'' None = Some (Success res, fs')"
    and paths: "individual_pdfs res =
       List.map_filter (page_path demo_env demo_pipeline no_files) (zip [1 .. int (length sl)] sl)"
    and total: "total_pages res = int (length (individual_pdfs res))"
    and fname: "res_input_file res = ''data.xlsx''"
    by blast
  have sl_eq: "sl = [(\<lparr>columns = [LStr ''id'', LStr ''name''], index_labels = [LInt 0, LInt 1],
              rows = [[PInt 1, PStr ''a|b''], [PInt 2, PNone]]\<rparr>, 0, 1),
           (\<lparr>columns = [LStr ''amount''], index_labels = [LInt 0, LInt 1],
              rows = [[PFloat (Finite (2469 / 2))], [PFloat (Finite 1234)]]\<rparr>, 2, 2)]"
    using sl demo_slices by simp
  have idx: "[1 .. int (length sl)] = [1, 2]"
    unfolding sl_eq by (simp add: upto_rec1)
  have p: "individual_pdfs res = [''output/page_2.pdf'']"
    unfolding paths idx unfolding sl_eq
    by (simp add: List.map_filter_def demo_page_1 demo_page_2)
  have t: "total_pages res = 1" using total p by simp
  have b: "\<exists>res fs'. process demo_env demo_pipeline no_files ''data.xlsx'' None = Some (Success res, fs')
        \<and> individual_pdfs res = [''output/page_2.pdf'']
        \<and> total_pages res = 1
        \<and> res_input_file res = ''data.xlsx''"
    using run p t fname by blast
  have h3: "max_columns_per_page (p_slicer (demo_pipeline\<lparr>p_slicer := ColumnSlicer_init 0\<rparr>)) = 0"
    by (simp add: ColumnSlicer_init_def)
  have c: "process demo_env (demo_pipeline\<lparr>p_slicer := ColumnSlicer_init 0\<rparr>) no_files
         ''data.xlsx'' None = Some (Failure ZeroDivisionError ''data.xlsx'', no_files)"
    using process_partial_failure
      [where ev = demo_env and self = "demo_pipeline\<lparr>p_slicer := ColumnSlicer_init 0\<rparr>"
         and fs = no_files and input_file = "''data.xlsx''" and sheet = None] h2 h3
    by blast
  have h4: "max_columns_per_page (p_slicer (demo_pipeline\<lparr>p_slicer := ColumnSlicer_init (- 3)\<rparr>)) < 0"
    by (simp add: ColumnSlicer_init_def)
  have h5: "columns demo_table \<noteq> []" by (simp add: demo_table_def)
  have d: "process demo_env (demo_pipeline\<lparr>p_slicer := ColumnSlicer_init (- 3)\<rparr>) no_files
         ''data.xlsx'' None = None"
    using process_partial_failure
      [where ev = demo_env and self = "demo_pipeline\<lparr>p_slicer := ColumnSlicer_init (- 3)\<rparr>"
         and fs = no_files and input_file = "''data.xlsx''" and sheet = None] h2 h4 h5
    by blast
  show ?thesis using h0 h1 h2 a b h3 c h4 h5 d by blast
qed


text \<open>
  Claim C9, as stated, fails: a pipeline configured with the width \<open>-3\<close> is built
  without any error, its slicer holds \<open>-3\<close>, and slicing a table without columns
  with it returns.
\<close>

theorem nonpositive_width_accepted:
  "max_columns_per_page
     (p_slicer (pipeline_init (default_config\<lparr>cfg_max_columns_per_page := Some (- 3)\<rparr>))) = - 3
   \<and> slice_dataframe
       (p_slicer (pipeline_init (default_config\<lparr>cfg_max_columns_per_page := Some (- 3)\<rparr>)))
       \<lparr>columns = [], index_labels = [], rows = []\<rparr> = Some []"
  by (simp add: pipeline_init_def default_config_def ColumnSlicer_init_def slice_dataframe_def)

text \<open>
  Claim C9, amended.  No width is rejected: the slicer stores any integer as it
  is, and the pipeline hands it the configured width, or 12.  With a width of 0
  or less, slicing a table without columns returns no slice and slicing a table
  with columns never returns; with the width 0 the plan raises
  \<open>ZeroDivisionError\<close>.
\<close>

theorem configuration_not_validated:
  "max_columns_per_page (ColumnSlicer_init m) = m
   \<and> max_columns_per_page (p_slicer (pipeline_init cfg)) =
       (case cfg_max_columns_per_page cfg of None \<Rightarrow> 12 | Some w \<Rightarrow> w)
   \<and> (m \<le> 0 \<longrightarrow>
        (columns df = [] \<longrightarrow> slice_dataframe (ColumnSlicer_init m) df = Some [])
      \<and> (columns df \<noteq> [] \<longrightarrow> slice_dataframe (ColumnSlicer_init m) df = None))
   \<and> get_slice_info (ColumnSlicer_init 0) df = Inl ZeroDivisionError"
  by (simp add: pipeline_init_def ColumnSlicer_init_def slice_dataframe_def
      slice_loop_diverges get_slice_info_def)

theorem configuration_not_validated_witness:
  "(- 3 :: int) \<le> 0
   \<and> max_columns_per_page (ColumnSlicer_init (- 3)) = - 3
   \<and> max_columns_per_page
       (p_slicer (pipeline_init (default_config\<lparr>cfg_max_columns_per_page := Some 0\<rparr>))) = 0
   \<and> columns demo_table \<noteq> []
   \<and> slice_dataframe (ColumnSlicer_init (- 3)) demo_table = None
   \<and> get_slice_info (ColumnSlicer_init 0) demo_table = Inl ZeroDivisionError
   \<and> columns \<lparr>columns = [], index_labels = [], rows = []\<rparr> = []
   \<and> slice_dataframe (ColumnSlicer_init (- 3)) \<lparr>columns = [], index_labels = [], rows = []\<rparr>
       = Some []"
  using configuration_not_validated [where m = "- 3" and df = demo_table
      and cfg = "default_config\<lparr>cfg_max_columns_per_page := Some 0\<rparr>"]
    configuration_not_validated [where m = "- 3"
      and df = "\<lparr>columns = [], index_labels = [], rows = []\<rparr>"]
  by (simp add: demo_table_def default_config_def)


end
